theory Spec2Isabelle
  imports Complex_Main "HOL-Library.Log_Nat" "HOL-Library.Multiset"
begin


section \<open>Data model\<close>

text \<open>
  The durable store is the PostgreSQL schema created by \<open>initDatabase\<close>
  (config/database.js); every table is a list of rows in insertion order. Identifiers
  are the UUID strings the code passes around, and an instant is a number of
  milliseconds since the epoch, which is how a JavaScript \<open>Date\<close> compares.
  The \<open>TIMESTAMP\<close> columns have no time zone: a row holds the reading of a wall clock, in
  milliseconds, and node reads it back as a time of its own zone (\<open>read_timestamp\<close>
  below).
\<close>

type_synonym uuid = string
type_synonym instant = int

record user_row =
  u_id :: uuid
  u_name :: string
  u_email :: string

record poll_row =
  p_id :: uuid
  p_title :: string
  p_description :: "string option"
  p_creator_id :: "uuid option"
  p_start_date :: instant
  p_end_date :: "instant option"
  p_is_active :: bool
  p_created_at :: instant

record option_row =
  o_id :: uuid
  o_poll_id :: uuid
  o_text :: string
  o_image_url :: "string option"
  o_vote_count :: int
  o_created_at :: instant

record vote_row =
  v_id :: uuid
  v_user_id :: uuid
  v_poll_id :: uuid
  v_option_id :: uuid
  v_voted_at :: instant

record store =
  users :: "user_row list"
  polls :: "poll_row list"
  poll_options :: "option_row list"
  vote_records :: "vote_row list"

text \<open>The JSON bodies the two modelled handlers send.\<close>

record option_view =
  ov_id :: uuid
  ov_text :: string
  ov_imageUrl :: "string option"
  ov_voteCount :: int
  ov_percentage :: int

record poll_view =
  pv_id :: uuid
  pv_title :: string
  pv_description :: "string option"
  pv_start_date :: instant
  pv_end_date :: "instant option"
  pv_is_active :: bool
  pv_created_at :: instant
  pv_creator_name :: string
  pv_creator_id :: uuid
  pv_totalVotes :: int
  pv_hasVotedToday :: bool
  pv_canEdit :: bool
  pv_options :: "option_view list"

record vote_view =
  vv_id :: uuid
  vv_pollId :: uuid
  vv_optionId :: uuid
  vv_votedAt :: instant

text \<open>
  What a request ends in. \<open>Err\<close> is a status with an error message, \<open>VoteOk\<close> is 201
  and the other two bodies are 200. The last two are the absence of a response:
  \<open>NoResponse\<close> when an exception leaves the handler, so that the handler sends
  nothing, and \<open>Pending\<close> when the handler awaits a promise that does not settle.
\<close>

datatype response =
  Err nat string
  | VoteOk vote_view
  | PollOk poll_view
  | CanVote bool "string option"
  | NoResponse
  | Pending

section \<open>The Redis cache (config/redis.js)\<close>

text \<open>
  Keys are the template strings of the source with their interpolated parts kept apart:
  \<open>vote:${userId}:${pollId}:${today}\<close>, \<open>poll_results:${pollId}\<close>,
  \<open>blacklist:${...}\<close> and \<open>token:${token}\<close>. The prefixes differ and UUIDs
  contain no colon, so two keys are equal as strings exactly when they are equal here.
  \<open>today\<close> is the UTC date of \<open>toISOString()\<close>, represented by the number of
  the UTC day. An entry carries the instant at which Redis expires it.
\<close>

datatype cache_key =
  VoteKey uuid uuid int
  | PollResultsKey uuid
  | BlacklistKey string
  | TokenKey string

datatype cache_value =
  Text string
  | Json poll_view

text \<open>
  The module's \<open>client\<close>. \<open>Ready\<close>: connected, \<open>client.isReady\<close> holds.
  \<open>Queueing\<close>: the client was opened and has lost its server; with the default
  options it queues a command, whose promise does not settle while the server stays
  away. \<open>Closed\<close>: there is no open client (\<open>client\<close> undefined, or never opened), and
  a command throws at once. The entries live in the server.
\<close>

datatype link = Ready | Queueing | Closed

record cache =
  link :: link
  entries :: "cache_key \<Rightarrow> (cache_value \<times> instant) option"

text \<open>\<open>client && client.isReady\<close>.\<close>

definition ready :: "cache \<Rightarrow> bool" where
  "ready c = (link c = Ready)"

datatype redis_error = RedisError

definition ms_per_day :: int where
  "ms_per_day = 86400000"

text \<open>What the server holds under a key at an instant.\<close>

definition stored :: "cache \<Rightarrow> instant \<Rightarrow> cache_key \<Rightarrow> cache_value option" where
  "stored c t k =
     (case entries c k of
        None \<Rightarrow> None
      | Some (v, expiry) \<Rightarrow> if t < expiry then Some v else None)"

text \<open>
  The client's commands: \<open>None\<close> is a promise that does not settle, \<open>Some (Inl e)\<close> an
  exception, \<open>Some (Inr r)\<close> the result. \<open>SETEX\<close> rejects a non-positive expiry.
\<close>

definition client_get ::
  "cache \<Rightarrow> instant \<Rightarrow> cache_key \<Rightarrow> (redis_error + cache_value option) option" where
  "client_get c t k =
     (case link c of
        Queueing \<Rightarrow> None
      | Closed \<Rightarrow> Some (Inl RedisError)
      | Ready \<Rightarrow> Some (Inr (stored c t k)))"

definition client_setEx ::
  "cache \<Rightarrow> instant \<Rightarrow> cache_key \<Rightarrow> int \<Rightarrow> cache_value \<Rightarrow> (redis_error + cache) option" where
  "client_setEx c t k seconds v =
     (case link c of
        Queueing \<Rightarrow> None
      | Closed \<Rightarrow> Some (Inl RedisError)
      | Ready \<Rightarrow>
          if seconds \<le> 0 then Some (Inl RedisError)
          else Some (Inr (c\<lparr>entries := (entries c)(k \<mapsto> (v, t + seconds * 1000))\<rparr>)))"

definition client_del :: "cache \<Rightarrow> cache_key \<Rightarrow> (redis_error + cache) option" where
  "client_del c k =
     (case link c of
        Queueing \<Rightarrow> None
      | Closed \<Rightarrow> Some (Inl RedisError)
      | Ready \<Rightarrow> Some (Inr (c\<lparr>entries := (entries c)(k := None)\<rparr>)))"

text \<open>\<open>new Date().toISOString().split('T')[0]\<close>: the UTC calendar day of an instant.\<close>

definition cache_day :: "instant \<Rightarrow> int" where
  "cache_day t = t div ms_per_day"

text \<open>
  The four exported helpers of the vote and poll handlers. Each \<open>try { ... } catch\<close>
  swallows the client's exception; none tests \<open>isReady\<close> first, so each awaits
  whatever the client returns, and \<open>None\<close> is again a promise that does not settle.
\<close>

definition hasVotedToday :: "instant \<Rightarrow> cache \<Rightarrow> uuid \<Rightarrow> uuid \<Rightarrow> bool option" where
  "hasVotedToday t c userId pollId =
     (case client_get c t (VoteKey userId pollId (cache_day t)) of
        None \<Rightarrow> None
      | Some (Inl e) \<Rightarrow> Some False
      | Some (Inr r) \<Rightarrow> Some (r = Some (Text ''voted'')))"

definition markAsVoted :: "instant \<Rightarrow> cache \<Rightarrow> uuid \<Rightarrow> uuid \<Rightarrow> cache option" where
  "markAsVoted t c userId pollId =
     (case client_setEx c t (VoteKey userId pollId (cache_day t)) (25 * 60 * 60) (Text ''voted'') of
        None \<Rightarrow> None
      | Some (Inl e) \<Rightarrow> Some c
      | Some (Inr c') \<Rightarrow> Some c')"

definition cachePollResults ::
  "instant \<Rightarrow> cache \<Rightarrow> uuid \<Rightarrow> poll_view \<Rightarrow> int \<Rightarrow> cache option" where
  "cachePollResults t c pollId results ttl =
     (case client_setEx c t (PollResultsKey pollId) ttl (Json results) of
        None \<Rightarrow> None
      | Some (Inl e) \<Rightarrow> Some c
      | Some (Inr c') \<Rightarrow> Some c')"

text \<open>
  \<open>result ? JSON.parse(result) : null\<close>: only a stored snapshot parses to a result;
  the marker texts are not JSON, and the parse error is caught.
\<close>

definition getCachedPollResults ::
  "instant \<Rightarrow> cache \<Rightarrow> uuid \<Rightarrow> poll_view option option" where
  "getCachedPollResults t c pollId =
     (case client_get c t (PollResultsKey pollId) of
        None \<Rightarrow> None
      | Some (Inl e) \<Rightarrow> Some None
      | Some (Inr None) \<Rightarrow> Some None
      | Some (Inr (Some (Text s))) \<Rightarrow> Some None
      | Some (Inr (Some (Json r))) \<Rightarrow> Some (Some r))"

section \<open>The store's statements\<close>

text \<open>
  A request runs against an environment: the clock; the offsets from UTC, in
  milliseconds, of the database session's time zone and of node's own; the identifier
  \<open>gen_random_uuid()\<close> will produce; the order in which the executor happens to
  deliver rows that \<open>ORDER BY\<close> leaves tied; and which statements fail for a reason
  other than a constraint (connection lost, timeout). \<open>Connect\<close> is the handler's
  \<open>pool.connect()\<close>, \<open>Rollback\<close> the \<open>ROLLBACK\<close> before an early return and
  \<open>RollbackInCatch\<close> the one of the \<open>catch\<close> block.
\<close>

datatype stmt =
  Connect | Begin | SelectPoll | SelectOption | SelectExistingVote | InsertVote
  | UpdateVoteCount | Commit | Rollback | RollbackInCatch
  | SelectPollDetails | SelectOptionCounts | SelectTotalVotes | SelectTodayVote

record env =
  now :: instant
  tz_offset :: int
  node_tz_offset :: int
  fresh_id :: uuid
  tie_rank :: "uuid \<Rightarrow> int"
  fails :: "stmt \<Rightarrow> bool"

datatype pg_error = UniqueViolation | ForeignKeyViolation | OtherError

fun sqlstate :: "pg_error \<Rightarrow> string" where
  "sqlstate UniqueViolation = ''23505''"
| "sqlstate ForeignKeyViolation = ''23503''"
| "sqlstate OtherError = ''''"

text \<open>
  \<open>CURRENT_TIMESTAMP\<close> stored in a \<open>TIMESTAMP\<close> column is the wall clock of the
  session's time zone; \<open>store_day\<close> is the calendar day of an instant in that zone,
  \<open>CURRENT_DATE\<close> the day of the current instant, and \<open>DATE(voted_at)\<close> the day of a
  stored wall-clock reading.
\<close>

definition wall_clock :: "env \<Rightarrow> instant \<Rightarrow> int" where
  "wall_clock e t = t + tz_offset e"

definition store_day :: "env \<Rightarrow> instant \<Rightarrow> int" where
  "store_day e t = (t + tz_offset e) div ms_per_day"

definition current_date :: "env \<Rightarrow> int" where
  "current_date e = store_day e (now e)"

definition date_of :: "int \<Rightarrow> int" where
  "date_of wall = wall div ms_per_day"

text \<open>
  The driver parses a \<open>TIMESTAMP\<close> without time zone as a time of node's zone, and
  writes a \<open>Date\<close> parameter as the wall clock of node's zone.
\<close>

definition read_timestamp :: "env \<Rightarrow> int \<Rightarrow> instant" where
  "read_timestamp e wall = wall - node_tz_offset e"

text \<open>
  \<open>SELECT id FROM vote_records WHERE user_id = $1 AND poll_id = $2 AND
  DATE(voted_at) = CURRENT_DATE\<close>, the query shared by the vote, can-vote and poll
  handlers.
\<close>

definition votes_today :: "env \<Rightarrow> store \<Rightarrow> uuid \<Rightarrow> uuid \<Rightarrow> vote_row list" where
  "votes_today e s userId pollId =
     filter (\<lambda>v. v_user_id v = userId \<and> v_poll_id v = pollId
                  \<and> date_of (v_voted_at v) = current_date e) (vote_records s)"

definition select_poll :: "store \<Rightarrow> uuid \<Rightarrow> poll_row option" where
  "select_poll s pollId = find (\<lambda>p. p_id p = pollId) (polls s)"

definition select_option :: "store \<Rightarrow> uuid \<Rightarrow> uuid \<Rightarrow> option_row list" where
  "select_option s optionId pollId =
     filter (\<lambda>opt. o_id opt = optionId \<and> o_poll_id opt = pollId) (poll_options s)"

text \<open>
  The constraints of \<open>vote_records\<close>: the primary key, \<open>UNIQUE(user_id, poll_id)\<close>
  and the three foreign keys. The unique indexes are checked as the row is inserted,
  the foreign keys at the end of the statement.
\<close>

definition unique_conflict :: "store \<Rightarrow> vote_row \<Rightarrow> bool" where
  "unique_conflict s r =
     list_ex (\<lambda>v. v_id v = v_id r \<or> (v_user_id v = v_user_id r \<and> v_poll_id v = v_poll_id r))
       (vote_records s)"

definition foreign_keys_ok :: "store \<Rightarrow> vote_row \<Rightarrow> bool" where
  "foreign_keys_ok s r =
     (list_ex (\<lambda>u. u_id u = v_user_id r) (users s)
      \<and> list_ex (\<lambda>p. p_id p = v_poll_id r) (polls s)
      \<and> list_ex (\<lambda>opt. o_id opt = v_option_id r) (poll_options s))"

text \<open>
  \<open>INSERT INTO vote_records (user_id, poll_id, option_id) VALUES ($1, $2, $3)\<close>: the
  row with its defaults, \<open>gen_random_uuid()\<close> and \<open>CURRENT_TIMESTAMP\<close>.
\<close>

definition new_vote_row :: "env \<Rightarrow> uuid \<Rightarrow> uuid \<Rightarrow> uuid \<Rightarrow> vote_row" where
  "new_vote_row e userId pollId optionId =
     \<lparr>v_id = fresh_id e, v_user_id = userId, v_poll_id = pollId,
      v_option_id = optionId, v_voted_at = wall_clock e (now e)\<rparr>"

definition insert_vote :: "env \<Rightarrow> store \<Rightarrow> uuid \<Rightarrow> uuid \<Rightarrow> uuid \<Rightarrow> pg_error + vote_row" where
  "insert_vote e s userId pollId optionId =
     (let r = new_vote_row e userId pollId optionId
      in if fails e InsertVote then Inl OtherError
         else if unique_conflict s r then Inl UniqueViolation
         else if \<not> foreign_keys_ok s r then Inl ForeignKeyViolation
         else Inr r)"

text \<open>
  \<open>updateVoteCount\<close> (config/database.js): on a connection of its own,
  \<open>SELECT COUNT(*) FROM vote_records WHERE option_id = $1\<close> and
  \<open>UPDATE poll_options SET vote_count = $1 WHERE id = $2\<close>, committed at once.
  Its argument is the store as that connection sees it: the committed rows.
\<close>

definition count_votes_for_option :: "store \<Rightarrow> uuid \<Rightarrow> int" where
  "count_votes_for_option s optionId =
     int (length (filter (\<lambda>v. v_option_id v = optionId) (vote_records s)))"

definition updateVoteCount :: "store \<Rightarrow> uuid \<Rightarrow> store" where
  "updateVoteCount s optionId =
     s\<lparr>poll_options :=
         map (\<lambda>opt. if o_id opt = optionId
                     then opt\<lparr>o_vote_count := count_votes_for_option s optionId\<rparr>
                     else opt)
           (poll_options s)\<rparr>"

section \<open>Casting a vote (routes/votes.js, POST /)\<close>

record state =
  db :: store
  cache :: cache

record vote_request =
  rq_userId :: uuid
  rq_pollId :: uuid
  rq_optionId :: uuid

text \<open>\<open>poll.end_date && new Date(poll.end_date) < new Date()\<close>.\<close>

definition poll_has_ended :: "env \<Rightarrow> poll_row \<Rightarrow> bool" where
  "poll_has_ended e p =
     (case p_end_date p of None \<Rightarrow> False | Some d \<Rightarrow> read_timestamp e d < now e)"

text \<open>The answer of the \<open>catch\<close> block: 429 for SQLSTATE 23505, else 500.\<close>

definition vote_error_response :: "pg_error \<Rightarrow> response" where
  "vote_error_response err =
     (if sqlstate err = ''23505''
      then Err 429 ''You have already voted for this poll today''
      else Err 500 ''Failed to record vote'')"

text \<open>
  The \<open>catch\<close> block awaits \<open>ROLLBACK\<close> before it answers: when that statement
  fails too, the exception leaves the handler and nothing is sent.
\<close>

definition catch_block :: "env \<Rightarrow> pg_error \<Rightarrow> state \<Rightarrow> response \<times> state" where
  "catch_block e err st =
     (if fails e RollbackInCatch then (NoResponse, st) else (vote_error_response err, st))"

text \<open>
  An early return, \<open>await client.query('ROLLBACK'); return res.status(...)\<close>, inside
  the \<open>try\<close>: a failing \<open>ROLLBACK\<close> is caught by the \<open>catch\<close> block.
\<close>

definition early_return :: "env \<Rightarrow> response \<Rightarrow> state \<Rightarrow> response \<times> state" where
  "early_return e r st = (if fails e Rollback then catch_block e OtherError st else (r, st))"

text \<open>\<open>Clear cached poll results\<close>: guarded by \<open>isReady\<close>, inside its own \<open>try\<close>.\<close>

definition clear_poll_results :: "cache \<Rightarrow> uuid \<Rightarrow> cache" where
  "clear_poll_results c pollId =
     (if ready c
      then (case client_del c (PollResultsKey pollId) of Some (Inr c') \<Rightarrow> c' | _ \<Rightarrow> c)
      else c)"

text \<open>
  The handler after \<open>voteSchema.validate\<close> has accepted the body, one request at a
  time and with one reading of the clock. \<open>pool.connect()\<close> stands before the
  \<open>try\<close>: when it fails nothing is sent. The transaction of \<open>client\<close> holds one
  pending row, the inserted vote, which other connections see only after \<open>COMMIT\<close>.
  \<open>updateVoteCount\<close> calls \<open>pool.connect()\<close> while \<open>client\<close> is checked out, so
  it runs on another connection: it reads and writes the committed store \<open>s\<close> and
  commits on its own. Every early return and the \<open>catch\<close> block roll the transaction
  of \<open>client\<close> back, which drops the pending row. \<open>votedAt\<close> is the stored
  \<open>voted_at\<close> as node reads it.
\<close>

definition castVote :: "env \<Rightarrow> state \<Rightarrow> vote_request \<Rightarrow> response \<times> state" where
  "castVote e st rq =
     (let s = db st; c = cache st;
          userId = rq_userId rq; pollId = rq_pollId rq; optionId = rq_optionId rq
      in
      if fails e Connect then (NoResponse, st)
      else if fails e Begin then catch_block e OtherError st
      else if fails e SelectPoll then catch_block e OtherError st
      else (case select_poll s pollId of
        None \<Rightarrow> early_return e (Err 404 ''Poll not found'') st
      | Some poll \<Rightarrow>
          if \<not> p_is_active poll
            then early_return e (Err 400 ''This poll is no longer active'') st
          else if poll_has_ended e poll
            then early_return e (Err 400 ''This poll has ended'') st
          else if fails e SelectOption then catch_block e OtherError st
          else if select_option s optionId pollId = []
            then early_return e (Err 400 ''Invalid poll option'') st
          else (case hasVotedToday (now e) c userId pollId of
            None \<Rightarrow> (Pending, st)
          | Some True \<Rightarrow>
              early_return e (Err 429 ''You can only vote once per day for this poll'') st
          | Some False \<Rightarrow>
              if fails e SelectExistingVote then catch_block e OtherError st
              else if votes_today e s userId pollId \<noteq> []
                then early_return e (Err 429 ''You have already voted for this poll today'') st
              else (case insert_vote e s userId pollId optionId of
                Inl err \<Rightarrow> catch_block e err st
              | Inr vote \<Rightarrow>
                  if fails e UpdateVoteCount then catch_block e OtherError st
                  else
                    (let s1 = updateVoteCount s optionId
                     in case markAsVoted (now e) c userId pollId of
                       None \<Rightarrow> (Pending, \<lparr>db = s1, cache = c\<rparr>)
                     | Some c1 \<Rightarrow>
                         if fails e Commit
                         then catch_block e OtherError \<lparr>db = s1, cache = c1\<rparr>
                         else
                           (let s2 = s1\<lparr>vote_records := vote_records s1 @ [vote]\<rparr>;
                                c2 = clear_poll_results c1 pollId
                            in (VoteOk \<lparr>vv_id = v_id vote, vv_pollId = pollId,
                                         vv_optionId = optionId,
                                         vv_votedAt = read_timestamp e (v_voted_at vote)\<rparr>,
                                \<lparr>db = s2, cache = c2\<rparr>)))))))"

section \<open>Checking eligibility (routes/votes.js, GET /can-vote/:pollId)\<close>

text \<open>The read-only variant: the same tests through \<open>pool.query\<close>, without the option.\<close>

definition canVoteToday :: "env \<Rightarrow> state \<Rightarrow> uuid \<Rightarrow> uuid \<Rightarrow> response" where
  "canVoteToday e st userId pollId =
     (if fails e SelectPoll then Err 500 ''Failed to check voting eligibility''
      else (case select_poll (db st) pollId of
        None \<Rightarrow> Err 404 ''Poll not found''
      | Some poll \<Rightarrow>
          if \<not> p_is_active poll then CanVote False (Some ''Poll is not active'')
          else if poll_has_ended e poll then CanVote False (Some ''Poll has ended'')
          else (case hasVotedToday (now e) (cache st) userId pollId of
            None \<Rightarrow> Pending
          | Some True \<Rightarrow> CanVote False (Some ''Already voted today'')
          | Some False \<Rightarrow>
              if fails e SelectExistingVote then Err 500 ''Failed to check voting eligibility''
              else if votes_today e (db st) userId pollId \<noteq> []
                then CanVote False (Some ''Already voted today'')
              else CanVote True None)))"

section \<open>Listing polls (the later copy of routes/polls.js, GET /)\<close>

text \<open>
  The listing filters on \<open>p.is_active = true\<close> and, for \<open>active=true\<close>, on
  \<open>p.end_date IS NULL OR p.end_date > CURRENT_TIMESTAMP\<close> (``only active polls that
  haven't ended''), for \<open>active=false\<close> on \<open>p.end_date IS NOT NULL AND p.end_date <=
  CURRENT_TIMESTAMP\<close> (``only polls that have ended''). The comparison reads the stored
  wall clock in the session's zone.
\<close>

definition listed_as_not_ended :: "env \<Rightarrow> poll_row \<Rightarrow> bool" where
  "listed_as_not_ended e p =
     (p_is_active p
      \<and> (case p_end_date p of None \<Rightarrow> True | Some d \<Rightarrow> now e < d - tz_offset e))"

definition listed_as_ended :: "env \<Rightarrow> poll_row \<Rightarrow> bool" where
  "listed_as_ended e p =
     (p_is_active p
      \<and> (case p_end_date p of None \<Rightarrow> False | Some d \<Rightarrow> d - tz_offset e \<le> now e))"

section \<open>Double-precision arithmetic of the percentage\<close>

text \<open>
  \<open>Math.round((option.actual_vote_count / totalVotes) * 100)\<close> is computed on IEEE 754
  binary64 numbers. A finite non-negative double is a pair \<open>(m, e)\<close> standing for
  \<open>m * 2 ^ e\<close>. \<open>nearest_double a b\<close> is the double nearest to the fraction
  \<open>a / b\<close> (for \<open>0 \<le> a\<close>, \<open>0 < b\<close>), ties to the even significand: it scales the
  fraction to a 53-bit integer part and rounds. Counts are below \<open>2 ^ 63\<close>, far from
  where binary64 overflows or loses precision to subnormals.
\<close>

type_synonym double = "int \<times> int"

definition nearest_double :: "int \<Rightarrow> int \<Rightarrow> double" where
  "nearest_double a b =
     (if a = 0 then (0, 0)
      else
        let k = bitlen a - bitlen b;
            e = (if (if 0 \<le> k then b * 2 ^ nat k \<le> a else b \<le> a * 2 ^ nat (- k))
                 then k else k - 1);
            s = e - 52;
            n = (if 0 \<le> s then a else a * 2 ^ nat (- s));
            d = (if 0 \<le> s then b * 2 ^ nat s else b);
            q = n div d;
            r = n mod d;
            m = (if 2 * r < d then q
                 else if d < 2 * r then q + 1
                 else if even q then q else q + 1)
        in (m, s))"

definition to_number :: "int \<Rightarrow> double" where
  "to_number c = nearest_double c 1"

definition js_div :: "double \<Rightarrow> double \<Rightarrow> double" where
  "js_div x y =
     (case (x, y) of ((m1, e1), (m2, e2)) \<Rightarrow>
        if e2 \<le> e1 then nearest_double (m1 * 2 ^ nat (e1 - e2)) m2
        else nearest_double m1 (m2 * 2 ^ nat (e2 - e1)))"

definition js_mul :: "double \<Rightarrow> double \<Rightarrow> double" where
  "js_mul x y =
     (case (x, y) of ((m1, e1), (m2, e2)) \<Rightarrow>
        if 0 \<le> e1 + e2 then nearest_double (m1 * m2 * 2 ^ nat (e1 + e2)) 1
        else nearest_double (m1 * m2) (2 ^ nat (- (e1 + e2))))"

text \<open>\<open>Math.round\<close>: the nearest integer, a tie going up.\<close>

definition math_round :: "double \<Rightarrow> int" where
  "math_round x =
     (case x of (m, e) \<Rightarrow>
        if 0 \<le> e then m * 2 ^ nat e
        else (2 * m + 2 ^ nat (- e)) div 2 ^ nat (1 - e))"

definition percentage :: "int \<Rightarrow> int \<Rightarrow> int" where
  "percentage actual_vote_count totalVotes =
     (if 0 < totalVotes
      then math_round (js_mul (js_div (to_number actual_vote_count) (to_number totalVotes))
                              (to_number 100))
      else 0)"

section \<open>Reading a poll (routes/polls.js, GET /:id)\<close>

text \<open>\<open>FROM polls p JOIN users u ON p.creator_id = u.id WHERE p.id = $1\<close>.\<close>

definition select_poll_details :: "store \<Rightarrow> uuid \<Rightarrow> (poll_row \<times> user_row) option" where
  "select_poll_details s pollId =
     (case find (\<lambda>p. p_id p = pollId) (polls s) of
        None \<Rightarrow> None
      | Some p \<Rightarrow>
          (case p_creator_id p of
             None \<Rightarrow> None
           | Some creator \<Rightarrow>
               (case find (\<lambda>u. u_id u = creator) (users s) of
                  None \<Rightarrow> None
                | Some u \<Rightarrow> Some (p, u))))"

text \<open>
  The options of the poll \<open>ORDER BY po.created_at\<close>, rows of equal \<open>created_at\<close> in
  the order the executor happens to deliver them (\<open>tie_rank\<close>), each with \<open>COUNT(vr.id)\<close> over the \<open>LEFT JOIN\<close> on
  \<open>po.id = vr.option_id\<close>; and \<open>SELECT COUNT(*) FROM vote_records WHERE poll_id = $1\<close>.
\<close>

definition select_option_counts :: "env \<Rightarrow> store \<Rightarrow> uuid \<Rightarrow> (option_row \<times> int) list" where
  "select_option_counts e s pollId =
     map (\<lambda>opt. (opt, count_votes_for_option s (o_id opt)))
       (sort_key o_created_at
          (sort_key (\<lambda>opt. tie_rank e (o_id opt))
             (filter (\<lambda>opt. o_poll_id opt = pollId) (poll_options s))))"

definition select_total_votes :: "store \<Rightarrow> uuid \<Rightarrow> int" where
  "select_total_votes s pollId =
     int (length (filter (\<lambda>v. v_poll_id v = pollId) (vote_records s)))"

definition option_result :: "int \<Rightarrow> option_row \<times> int \<Rightarrow> option_view" where
  "option_result totalVotes row =
     (case row of (opt, actual_vote_count) \<Rightarrow>
        \<lparr>ov_id = o_id opt, ov_text = o_text opt, ov_imageUrl = o_image_url opt,
         ov_voteCount = actual_vote_count,
         ov_percentage = percentage actual_vote_count totalVotes\<rparr>)"

text \<open>
  The \<open>result\<close> object built on a cache miss; \<open>user\<close> is \<open>req.user\<close> of
  \<open>optionalAuth\<close>. Counts are taken below \<open>2 ^ 53\<close>, where \<open>parseInt\<close> is exact.
\<close>

definition poll_result ::
  "env \<Rightarrow> store \<Rightarrow> uuid \<Rightarrow> poll_row \<Rightarrow> user_row \<Rightarrow> uuid option \<Rightarrow> poll_view" where
  "poll_result e s pollId poll creator user =
     (let totalVotes = select_total_votes s pollId;
          hasVoted = (case user of
                        None \<Rightarrow> False
                      | Some userId \<Rightarrow> votes_today e s userId pollId \<noteq> [])
      in \<lparr>pv_id = p_id poll, pv_title = p_title poll, pv_description = p_description poll,
          pv_start_date = read_timestamp e (p_start_date poll),
          pv_end_date = map_option (read_timestamp e) (p_end_date poll),
          pv_is_active = p_is_active poll,
          pv_created_at = read_timestamp e (p_created_at poll),
          pv_creator_name = u_name creator, pv_creator_id = u_id creator,
          pv_totalVotes = totalVotes,
          pv_hasVotedToday = hasVoted,
          pv_canEdit = (user = Some (u_id creator)),
          pv_options = map (option_result totalVotes) (select_option_counts e s pollId)\<rparr>)"

text \<open>
  The handler of routes/polls.js. The repository holds a second copy of it that also asks
  the cache marker for \<open>hasVotedToday\<close> and attaches image lists to the options; its
  cache lookup, counting queries, percentage and cache write are the same.
\<close>

definition getResults :: "env \<Rightarrow> state \<Rightarrow> uuid \<Rightarrow> uuid option \<Rightarrow> response \<times> state" where
  "getResults e st pollId user =
     (case getCachedPollResults (now e) (cache st) pollId of
        None \<Rightarrow> (Pending, st)
      | Some (Some cachedResults) \<Rightarrow> (PollOk cachedResults, st)
      | Some None \<Rightarrow>
          if fails e SelectPollDetails then (Err 500 ''Failed to fetch poll'', st)
          else (case select_poll_details (db st) pollId of
            None \<Rightarrow> (Err 404 ''Poll not found'', st)
          | Some (poll, creator) \<Rightarrow>
              if fails e SelectOptionCounts \<or> fails e SelectTotalVotes
                 \<or> (user \<noteq> None \<and> fails e SelectTodayVote)
              then (Err 500 ''Failed to fetch poll'', st)
              else
                (let result = poll_result e (db st) pollId poll creator user
                 in case cachePollResults (now e) (cache st) pollId result 300 of
                      None \<Rightarrow> (Pending, st)
                    | Some c' \<Rightarrow> (PollOk result, st\<lparr>cache := c'\<rparr>))))"

text \<open>What a response to \<open>GET /:id\<close> shows: the total, and each option's count and percentage.\<close>

definition shown_total :: "response \<Rightarrow> int option" where
  "shown_total r = (case r of PollOk view \<Rightarrow> Some (pv_totalVotes view) | _ \<Rightarrow> None)"

definition shown_options :: "response \<Rightarrow> (uuid \<times> int \<times> int) list" where
  "shown_options r =
     (case r of
        PollOk view \<Rightarrow> map (\<lambda>ov. (ov_id ov, ov_voteCount ov, ov_percentage ov)) (pv_options view)
      | _ \<Rightarrow> [])"

definition shown_flags :: "response \<Rightarrow> (bool \<times> bool) option" where
  "shown_flags r =
     (case r of
        PollOk view \<Rightarrow> Some (pv_hasVotedToday view, pv_canEdit view)
      | _ \<Rightarrow> None)"

text \<open>None of the statements of \<open>GET /:id\<close> fails.\<close>

definition reads_succeed :: "env \<Rightarrow> bool" where
  "reads_succeed e =
     (\<not> (fails e SelectPollDetails \<or> fails e SelectOptionCounts
         \<or> fails e SelectTotalVotes \<or> fails e SelectTodayVote))"

section \<open>Token blacklist (config/redis.js, middleware/auth.js, routes/auth.js)\<close>

text \<open>
  \<open>authHeader && authHeader.split(' ')[1]\<close>: the second piece of the header cut at
  every space; a missing header, a missing piece and the empty string are all falsy.
\<close>

fun split_on :: "char \<Rightarrow> string \<Rightarrow> string list" where
  "split_on d [] = [[]]"
| "split_on d (x # xs) =
     (if x = d then [] # split_on d xs
      else (case split_on d xs of
              [] \<Rightarrow> [[x]]
            | w # ws \<Rightarrow> (x # w) # ws))"

definition bearer_token :: "string option \<Rightarrow> string option" where
  "bearer_token authHeader =
     (case authHeader of
        None \<Rightarrow> None
      | Some h \<Rightarrow>
          if h = [] then None
          else (case split_on (CHR '' '') h of
                  a # t # rest \<Rightarrow> if t = [] then None else Some t
                | _ \<Rightarrow> None))"

text \<open>
  \<open>`blacklist:${blacklistToken}`\<close> interpolates the function \<open>blacklistToken\<close>
  itself, whose string conversion is its source text.
\<close>

definition blacklistToken_source :: string where
  "blacklistToken_source =
     ''async (token, expirationTime) => {'' @
     ''\<newline>    try {'' @
     ''\<newline>        if (!client || !client.isReady) {'' @
     ''\<newline>            console.warn('Redis client not ready, skipping token blacklist');'' @
     ''\<newline>            return;'' @
     ''\<newline>        }'' @
     ''\<newline>        const key = `blacklist:${blacklistToken}`;'' @
     ''\<newline>        await client.setEx(key, expirationTime, 'blacklisted');'' @
     ''\<newline>    } catch (error) {'' @
     ''\<newline>        console.error('Redis blacklistToken error:', error);'' @
     ''\<newline>    }'' @
     ''\<newline>}''"

text \<open>
  The token helpers return at once unless \<open>client && client.isReady\<close>; a ready client
  settles its commands, so only the result and the caught exception arise.
\<close>

definition isTokenBlacklisted :: "instant \<Rightarrow> cache \<Rightarrow> string \<Rightarrow> bool" where
  "isTokenBlacklisted t c token =
     (if \<not> ready c then False
      else (case client_get c t (BlacklistKey token) of
              Some (Inr r) \<Rightarrow> r = Some (Text ''blacklisted'')
            | _ \<Rightarrow> False))"

definition blacklistToken :: "instant \<Rightarrow> cache \<Rightarrow> string \<Rightarrow> int \<Rightarrow> cache" where
  "blacklistToken t c token expirationTime =
     (if \<not> ready c then c
      else (case client_setEx c t (BlacklistKey blacklistToken_source) expirationTime
                   (Text ''blacklisted'') of
              Some (Inr c') \<Rightarrow> c'
            | _ \<Rightarrow> c))"

text \<open>
  \<open>POST /logout\<close>: \<open>decoded_exp\<close> is the expiry claim of the decoded token, in seconds;
  the remaining lifetime is \<open>decoded.exp - Math.floor(Date.now() / 1000)\<close>.
\<close>

definition logout :: "instant \<Rightarrow> cache \<Rightarrow> string \<Rightarrow> int \<Rightarrow> cache" where
  "logout t c token decoded_exp =
     (let expirationTime = decoded_exp - t div 1000
      in if 0 < expirationTime then blacklistToken t c token expirationTime else c)"

section \<open>Reading a double as a real number\<close>

text \<open>The power of two by which a significand is scaled, as a real number.\<close>

definition pow2 :: "int \<Rightarrow> real" where
  "pow2 k = 2 powr (of_int k)"

section \<open>Rounding as the specification words it\<close>

text \<open>
  \<open>round(optionVotes / totalVotes * 100)\<close>, 0 when the total is 0, as a rounding of
  the exact quotient, a half going up; and the shares \<open>100 * optionVotes / totalVotes\<close>
  that lie exactly halfway between two integers.
\<close>

definition rounded_percentage :: "int \<Rightarrow> int \<Rightarrow> int" where
  "rounded_percentage optionVotes totalVotes =
     (if totalVotes = 0 then 0
      else round (real_of_int optionVotes / real_of_int totalVotes * 100))"

definition exact_half :: "int \<Rightarrow> int \<Rightarrow> bool" where
  "exact_half optionVotes totalVotes =
     ((200 * optionVotes) mod (2 * totalVotes) = totalVotes)"

section \<open>Example data\<close>

definition ann :: user_row where
  "ann = \<lparr>u_id = ''u1'', u_name = ''Ann'', u_email = ''ann@example.org''\<rparr>"

definition bob :: user_row where
  "bob = \<lparr>u_id = ''u2'', u_name = ''Bob'', u_email = ''bob@example.org''\<rparr>"

definition cat :: user_row where
  "cat = \<lparr>u_id = ''u3'', u_name = ''Cat'', u_email = ''cat@example.org''\<rparr>"

definition dan :: user_row where
  "dan = \<lparr>u_id = ''u4'', u_name = ''Dan'', u_email = ''dan@example.org''\<rparr>"

definition poll1 :: poll_row where
  "poll1 = \<lparr>p_id = ''p1'', p_title = ''Lunch'', p_description = None,
            p_creator_id = Some ''u1'', p_start_date = 0, p_end_date = None,
            p_is_active = True, p_created_at = 0\<rparr>"

definition optA :: option_row where
  "optA = \<lparr>o_id = ''oA'', o_poll_id = ''p1'', o_text = ''A'', o_image_url = None,
           o_vote_count = 0, o_created_at = 0\<rparr>"

definition optB :: option_row where
  "optB = \<lparr>o_id = ''oB'', o_poll_id = ''p1'', o_text = ''B'', o_image_url = None,
           o_vote_count = 0, o_created_at = 0\<rparr>"

definition store0 :: store where
  "store0 = \<lparr>users = [ann, bob, cat, dan], polls = [poll1],
             poll_options = [optA, optB], vote_records = []\<rparr>"

definition empty_cache :: cache where
  "empty_cache = \<lparr>link = Ready, entries = Map.empty\<rparr>"

definition state0 :: state where
  "state0 = \<lparr>db = store0, cache = empty_cache\<rparr>"

text \<open>
  A request at instant \<open>t\<close>, the database session and node on UTC, no statement
  failing, tied rows delivered in table order.
\<close>

definition env_at :: "instant \<Rightarrow> uuid \<Rightarrow> env" where
  "env_at t i = \<lparr>now = t, tz_offset = 0, node_tz_offset = 0, fresh_id = i,
                 tie_rank = (\<lambda>r. 0), fails = (\<lambda>q. False)\<rparr>"

text \<open>The same request when the statements \<open>qs\<close> fail.\<close>

definition env_failing :: "instant \<Rightarrow> uuid \<Rightarrow> stmt list \<Rightarrow> env" where
  "env_failing t i qs = (env_at t i)\<lparr>fails := (\<lambda>q. q \<in> set qs)\<rparr>"

definition bob_votes :: "uuid \<Rightarrow> vote_request" where
  "bob_votes optionId = \<lparr>rq_userId = ''u2'', rq_pollId = ''p1'', rq_optionId = optionId\<rparr>"

text \<open>Bob votes for A at instant 0 (1970-01-01T00:00:00Z); \<open>state1\<close> is what that leaves.\<close>

definition state1 :: state where
  "state1 = snd (castVote (env_at 0 ''v1'') state0 (bob_votes ''oA''))"

text \<open>One second later Cat votes for A as well; \<open>state2\<close> is what that leaves.\<close>

definition cat_votes :: "uuid \<Rightarrow> vote_request" where
  "cat_votes optionId = \<lparr>rq_userId = ''u3'', rq_pollId = ''p1'', rq_optionId = optionId\<rparr>"

definition state2 :: state where
  "state2 = snd (castVote (env_at 1000 ''v2'') state1 (cat_votes ''oA''))"

text \<open>25 hours and one millisecond later: the next UTC day, the marker of day 0 expired.\<close>

definition next_day :: instant where
  "next_day = 25 * 60 * 60 * 1000 + 1"

text \<open>
  A client that has lost its server and queues its commands, and no open client at all;
  the server holds nothing.
\<close>

definition queueing_cache :: cache where
  "queueing_cache = \<lparr>link = Queueing, entries = Map.empty\<rparr>"

definition closed_cache :: cache where
  "closed_cache = \<lparr>link = Closed, entries = Map.empty\<rparr>"


text \<open>
  Three votes for A and one for B; the stored counters of the options have drifted
  (0 and 7).
\<close>

definition vote_of :: "uuid \<Rightarrow> uuid \<Rightarrow> uuid \<Rightarrow> vote_row" where
  "vote_of i userId optionId =
     \<lparr>v_id = i, v_user_id = userId, v_poll_id = ''p1'', v_option_id = optionId,
      v_voted_at = 0\<rparr>"

definition store_3_1 :: store where
  "store_3_1 =
     store0\<lparr>poll_options := [optA, optB\<lparr>o_vote_count := 7\<rparr>],
            vote_records := [vote_of ''w1'' ''u1'' ''oA'', vote_of ''w2'' ''u2'' ''oA'',
                             vote_of ''w3'' ''u3'' ''oA'', vote_of ''w4'' ''u4'' ''oB'']\<rparr>"

text \<open>
  Forty voters, numbered in unary; the first 23 voted for A and the other 17 for B.
\<close>

definition voter :: "nat \<Rightarrow> user_row" where
  "voter k = \<lparr>u_id = ''n'' @ replicate k (CHR ''i''), u_name = ''Voter'',
              u_email = replicate k (CHR ''i'') @ ''@example.org''\<rparr>"

definition store_23_17 :: store where
  "store_23_17 =
     store0\<lparr>users := ann # map voter [0..<40],
            vote_records :=
              map (\<lambda>k. vote_of (''w'' @ replicate k (CHR ''i'')) (u_id (voter k))
                         (if k < 23 then ''oA'' else ''oB'')) [0..<40]\<rparr>"

text \<open>The poll with its end set to instant 1000.\<close>

definition store_ending :: store where
  "store_ending = store0\<lparr>polls := [poll1\<lparr>p_end_date := Some 1000\<rparr>]\<rparr>"

text \<open>16:00 UTC on day 0, the database session eight hours ahead of UTC.\<close>

definition env_ahead :: env where
  "env_ahead = \<lparr>now = 16 * 60 * 60 * 1000, tz_offset = 8 * 60 * 60 * 1000,
                node_tz_offset = 0, fresh_id = ''v9'', tie_rank = (\<lambda>r. 0),
                fails = (\<lambda>q. False)\<rparr>"



text \<open>The committed store after a vote: the recount, then the inserted row.\<close>

definition voted_db :: "env \<Rightarrow> store \<Rightarrow> vote_request \<Rightarrow> store" where
  "voted_db e s rq =
     (updateVoteCount s (rq_optionId rq))
       \<lparr>vote_records := vote_records s
           @ [new_vote_row e (rq_userId rq) (rq_pollId rq) (rq_optionId rq)]\<rparr>"

section \<open>Facts about the double-precision arithmetic\<close>

text \<open>
  \<open>nearest_double a b\<close> is within half a unit in the last place of \<open>a / b\<close>, so the
  quotient and the product of the percentage each carry a relative error of at most
  \<open>2 ^ -53\<close>, and \<open>Math.round\<close> is the floor of its argument plus one half. For counts
  below \<open>2 ^ 44\<close> the computed product is therefore within \<open>2 ^ -45\<close> of the exact
  share, which decides the rounding of every share that is not exactly halfway between
  two integers.
\<close>

lemma pow2_pos [simp]: "0 < pow2 k"
  by (simp add: pow2_def)

lemma pow2_neq0 [simp]: "pow2 k \<noteq> 0"
  by (simp add: pow2_def)

lemma pow2_nonneg [simp]: "0 \<le> pow2 k"
  by (simp add: pow2_def)

lemma pow2_add: "pow2 (j + k) = pow2 j * pow2 k"
  by (simp add: pow2_def powr_add)

lemma pow2_minus: "pow2 (- k) = 1 / pow2 k"
  by (simp add: pow2_def powr_minus_divide)

lemma pow2_diff: "pow2 (j - k) = pow2 j / pow2 k"
  by (simp add: pow2_def powr_diff)

lemma pow2_0 [simp]: "pow2 0 = 1"
  by (simp add: pow2_def)

lemma pow2_int: "pow2 (int n) = 2 ^ n"
  by (simp add: pow2_def powr_realpow)

lemma pow2_nat: "0 \<le> k \<Longrightarrow> pow2 k = 2 ^ nat k"
  using pow2_int [of "nat k"] by simp

lemma pow2_neg: "k \<le> 0 \<Longrightarrow> pow2 k = 1 / 2 ^ nat (- k)"
  using pow2_int [of "nat (- k)"] pow2_minus [of "- k"] by simp

lemma pow2_le_iff [simp]: "pow2 j \<le> pow2 k \<longleftrightarrow> j \<le> k"
  by (simp add: pow2_def)

lemma pow2_less_iff [simp]: "pow2 j < pow2 k \<longleftrightarrow> j < k"
  by (simp add: pow2_def)

lemma pow2_succ: "pow2 (k + 1) = 2 * pow2 k"
  by (simp add: pow2_add pow2_int [of 1, simplified])

lemma round_step:
  fixes n d :: int
  assumes "0 < d"
  defines "q \<equiv> n div d" and "r \<equiv> n mod d"
  defines "m \<equiv> (if 2 * r < d then q else if d < 2 * r then q + 1
                 else if even q then q else q + 1)"
  shows "\<bar>real_of_int m - real_of_int n / real_of_int d\<bar> \<le> 1 / 2"
proof -
  define f where "f = real_of_int r / real_of_int d"
  have n: "n = q * d + r" and r: "0 \<le> r" "r < d"
    using assms by (simp_all add: q_def r_def)
  have frac: "real_of_int n / real_of_int d = real_of_int q + f"
    using \<open>0 < d\<close> by (simp add: n f_def field_simps)
  have f: "0 \<le> f" "f < 1"
    using r \<open>0 < d\<close> by (simp_all add: f_def)
  consider "2 * r < d" | "d < 2 * r" | "2 * r = d" by linarith
  then show ?thesis
  proof cases
    case 1
    then have "real_of_int (2 * r) < real_of_int d"
      by (simp only: of_int_less_iff)
    then have "f < 1 / 2"
      using \<open>0 < d\<close> by (simp add: f_def field_simps)
    moreover from 1 have "m = q" by (simp add: m_def)
    ultimately show ?thesis using f by (simp add: frac)
  next
    case 2
    then have "real_of_int d < real_of_int (2 * r)"
      by (simp only: of_int_less_iff)
    then have "1 / 2 < f"
      using \<open>0 < d\<close> by (simp add: f_def field_simps)
    moreover from 2 have "m = q + 1" by (simp add: m_def)
    ultimately show ?thesis using f by (simp add: frac)
  next
    case 3
    then have "real_of_int (2 * r) = real_of_int d"
      by (simp only: of_int_eq_iff)
    then have "f = 1 / 2"
      using \<open>0 < d\<close> by (simp add: f_def field_simps)
    moreover from 3 have "m = q \<or> m = q + 1"
      by (simp add: m_def)
    ultimately show ?thesis by (auto simp: frac)
  qed
qed

lemma bitlen_pow2:
  assumes "0 < a"
  shows "pow2 (bitlen a - 1) \<le> real_of_int a"
    and "real_of_int a < pow2 (bitlen a)"
proof -
  from bitlen_bounds [OF assms]
  have b: "2 ^ nat (bitlen a - 1) \<le> a" "a < 2 ^ nat (bitlen a)" by simp_all
  have ge1: "1 \<le> bitlen a" using assms by (auto simp: bitlen_alt_def)
  from b(1) have "real_of_int (2 ^ nat (bitlen a - 1)) \<le> real_of_int a"
    by (rule of_int_le_iff [THEN iffD2])
  moreover have "pow2 (bitlen a - 1) = 2 ^ nat (bitlen a - 1)"
    using ge1 by (intro pow2_nat) simp
  ultimately show "pow2 (bitlen a - 1) \<le> real_of_int a"
    by simp
  from b(2) have "real_of_int a < real_of_int (2 ^ nat (bitlen a))"
    by (rule of_int_less_iff [THEN iffD2])
  moreover have "pow2 (bitlen a) = 2 ^ nat (bitlen a)"
    using ge1 by (intro pow2_nat) simp
  ultimately show "real_of_int a < pow2 (bitlen a)"
    by simp
qed

lemma exponent_test:
  fixes a b k :: int
  assumes "0 < b"
  shows "(if 0 \<le> k then b * 2 ^ nat k \<le> a else b \<le> a * 2 ^ nat (- k))
           \<longleftrightarrow> pow2 k \<le> real_of_int a / real_of_int b"
proof (cases "0 \<le> k")
  case True
  have "(b * 2 ^ nat k \<le> a) \<longleftrightarrow> (real_of_int (b * 2 ^ nat k) \<le> real_of_int a)"
    by (simp only: of_int_le_iff)
  also have "\<dots> \<longleftrightarrow> 2 ^ nat k \<le> real_of_int a / real_of_int b"
    using assms by (simp add: field_simps)
  finally show ?thesis using True by (simp add: pow2_nat)
next
  case False
  have "(b \<le> a * 2 ^ nat (- k)) \<longleftrightarrow> (real_of_int b \<le> real_of_int (a * 2 ^ nat (- k)))"
    by (simp only: of_int_le_iff)
  also have "\<dots> \<longleftrightarrow> 1 / 2 ^ nat (- k) \<le> real_of_int a / real_of_int b"
    using assms by (simp add: field_simps)
  finally show ?thesis using False by (simp add: pow2_neg)
qed

lemma exponent_bounds:
  fixes a b :: int
  assumes "0 < a" "0 < b"
  defines "k \<equiv> bitlen a - bitlen b"
  defines "e \<equiv> (if (if 0 \<le> k then b * 2 ^ nat k \<le> a else b \<le> a * 2 ^ nat (- k))
                 then k else k - 1)"
  shows "pow2 e \<le> real_of_int a / real_of_int b"
    and "real_of_int a / real_of_int b < pow2 (e + 1)"
proof -
  let ?x = "real_of_int a / real_of_int b"
  have pa: "pow2 (bitlen a - 1) \<le> real_of_int a" "real_of_int a < pow2 (bitlen a)"
    using bitlen_pow2 [OF \<open>0 < a\<close>] by simp_all
  have pb: "pow2 (bitlen b - 1) \<le> real_of_int b" "real_of_int b < pow2 (bitlen b)"
    using bitlen_pow2 [OF \<open>0 < b\<close>] by simp_all
  have lower: "pow2 (k - 1) < ?x"
  proof -
    have "pow2 (k - 1) = pow2 (bitlen a - 1) / pow2 (bitlen b)"
      unfolding k_def pow2_diff [symmetric] by (rule arg_cong [of _ _ pow2]) simp
    also have "\<dots> \<le> real_of_int a / pow2 (bitlen b)"
      using pa(1) by (intro divide_right_mono) simp_all
    also have "\<dots> < ?x"
      using pb(2) assms by (intro divide_strict_left_mono) simp_all
    finally show ?thesis .
  qed
  have upper: "?x < pow2 (k + 1)"
  proof -
    have "?x \<le> real_of_int a / pow2 (bitlen b - 1)"
      using pb(1) assms by (intro divide_left_mono) simp_all
    also have "\<dots> < pow2 (bitlen a) / pow2 (bitlen b - 1)"
      using pa(2) by (intro divide_strict_right_mono) simp_all
    also have "\<dots> = pow2 (k + 1)"
      unfolding k_def pow2_diff [symmetric] by (rule arg_cong [of _ _ pow2]) simp
    finally show ?thesis .
  qed
  have test: "(if 0 \<le> k then b * 2 ^ nat k \<le> a else b \<le> a * 2 ^ nat (- k))
                \<longleftrightarrow> pow2 k \<le> ?x"
    by (rule exponent_test [OF \<open>0 < b\<close>])
  show "pow2 e \<le> ?x"
    using lower test by (auto simp: e_def)
  show "?x < pow2 (e + 1)"
    using upper test by (auto simp: e_def)
qed


lemma nearest_double_spec:
  fixes a b :: int
  assumes "0 < a" "0 < b"
  obtains m s where "nearest_double a b = (m, s)"
    and "\<bar>real_of_int m * pow2 s - real_of_int a / real_of_int b\<bar> \<le> pow2 s / 2"
    and "pow2 (s + 52) \<le> real_of_int a / real_of_int b"
    and "real_of_int a / real_of_int b < pow2 (s + 53)"
proof -
  let ?x = "real_of_int a / real_of_int b"
  define k where "k = bitlen a - bitlen b"
  define e where "e = (if (if 0 \<le> k then b * 2 ^ nat k \<le> a else b \<le> a * 2 ^ nat (- k))
                       then k else k - 1)"
  define s where "s = e - 52"
  define n where "n = (if 0 \<le> s then a else a * 2 ^ nat (- s))"
  define d where "d = (if 0 \<le> s then b * 2 ^ nat s else b)"
  define m where "m = (if 2 * (n mod d) < d then n div d
                       else if d < 2 * (n mod d) then n div d + 1
                       else if even (n div d) then n div d else n div d + 1)"
  have "a \<noteq> 0"
    using \<open>0 < a\<close> by simp
  then have nd: "nearest_double a b = (m, s)"
    by (simp only: nearest_double_def Let_def k_def e_def s_def n_def d_def m_def if_False)
  have bounds: "pow2 e \<le> ?x" "?x < pow2 (e + 1)"
    unfolding e_def k_def by (rule exponent_bounds [OF assms])+
  have d: "0 < d"
    using \<open>0 < b\<close> by (simp add: d_def)
  have scaled: "real_of_int n / real_of_int d = ?x / pow2 s"
  proof (cases "0 \<le> s")
    case True
    then show ?thesis by (simp add: n_def d_def pow2_nat)
  next
    case False
    then show ?thesis by (simp add: n_def d_def pow2_neg)
  qed
  have "\<bar>real_of_int m - real_of_int n / real_of_int d\<bar> \<le> 1 / 2"
    unfolding m_def by (rule round_step [OF d])
  then have "\<bar>real_of_int m - ?x / pow2 s\<bar> * pow2 s \<le> 1 / 2 * pow2 s"
    unfolding scaled by (intro mult_right_mono) simp_all
  also have "\<bar>real_of_int m - ?x / pow2 s\<bar> * pow2 s = \<bar>real_of_int m * pow2 s - ?x\<bar>"
  proof -
    have "\<bar>real_of_int m - ?x / pow2 s\<bar> * pow2 s = \<bar>(real_of_int m - ?x / pow2 s) * pow2 s\<bar>"
      by (simp add: abs_mult)
    also have "(real_of_int m - ?x / pow2 s) * pow2 s = real_of_int m * pow2 s - ?x"
      by (simp add: left_diff_distrib)
    finally show ?thesis .
  qed
  finally have error: "\<bar>real_of_int m * pow2 s - ?x\<bar> \<le> pow2 s / 2"
    by simp
  have "e = s + 52" "e + 1 = s + 53"
    by (simp_all add: s_def)
  with bounds have "pow2 (s + 52) \<le> ?x" "?x < pow2 (s + 53)"
    by (simp_all only:)
  with nd error show ?thesis
    by (rule that)
qed

lemma half_ulp: "pow2 s / 2 = pow2 (s + 52) / 2 ^ 53"
proof -
  have "pow2 (s + 52) = pow2 s * pow2 52"
    by (rule pow2_add)
  also have "pow2 52 = 2 ^ 52"
    using pow2_int [of 52] by simp
  finally show ?thesis by simp
qed

lemma nearest_double_rel:
  fixes a b :: int
  assumes "0 < a" "0 < b"
  obtains m s where "nearest_double a b = (m, s)"
    and "\<bar>real_of_int m * pow2 s - real_of_int a / real_of_int b\<bar>
           \<le> (real_of_int a / real_of_int b) / 2 ^ 53"
    and "0 < m"
proof -
  let ?x = "real_of_int a / real_of_int b"
  from assms obtain m s where ms: "nearest_double a b = (m, s)"
    and err: "\<bar>real_of_int m * pow2 s - ?x\<bar> \<le> pow2 s / 2"
    and low: "pow2 (s + 52) \<le> ?x"
    by (rule nearest_double_spec)
  have "pow2 s / 2 = pow2 (s + 52) / 2 ^ 53"
    by (rule half_ulp)
  also have "\<dots> \<le> ?x / 2 ^ 53"
    using low by (intro divide_right_mono) simp_all
  finally have rel: "\<bar>real_of_int m * pow2 s - ?x\<bar> \<le> ?x / 2 ^ 53"
    using err by linarith
  have "0 < ?x" using assms by simp
  then have "?x / 2 ^ 53 < ?x" by simp
  with rel have "0 < real_of_int m * pow2 s" by linarith
  moreover have "\<not> pow2 s < 0"
    by (simp add: not_less)
  ultimately have "0 < m"
    by (auto simp: zero_less_mult_iff)
  with ms rel show ?thesis by (rule that)
qed


lemma math_round_floor:
  "math_round (m, e) = \<lfloor>real_of_int m * pow2 e + 1 / 2\<rfloor>"
proof (cases "0 \<le> e")
  case True
  define z where "z = m * 2 ^ nat e"
  have eq: "real_of_int m * pow2 e = real_of_int z"
    using True by (simp add: z_def pow2_nat)
  have "\<lfloor>real_of_int z + 1 / 2\<rfloor> = z"
    by (intro floor_unique) simp_all
  moreover from True have "math_round (m, e) = z"
    by (simp add: math_round_def z_def)
  ultimately show ?thesis
    by (simp only: eq)
next
  case False
  define k where "k = nat (- e)"
  from False have e: "e = - int k" and k1: "nat (1 - e) = Suc k"
    by (simp_all add: k_def)
  have "pow2 e = 1 / 2 ^ k"
    using False by (simp add: pow2_neg k_def)
  then have "real_of_int m * pow2 e + 1 / 2
               = real_of_int (2 * m + 2 ^ k) / real_of_int (2 ^ Suc k)"
    by (simp add: field_simps)
  then have "\<lfloor>real_of_int m * pow2 e + 1 / 2\<rfloor> = (2 * m + 2 ^ k) div 2 ^ Suc k"
    by (simp only: floor_divide_of_int_eq)
  with False k1 show ?thesis
    by (simp add: math_round_def k_def)
qed

lemma to_number_exact:
  assumes "0 < c" "c < 2 ^ 53"
  obtains m s where "to_number c = (m, s)" and "real_of_int m * pow2 s = real_of_int c"
    and "0 < m"
proof -
  have one: "(0::int) < 1" by simp
  from nearest_double_spec [OF assms(1) one]
  obtain m s where ms: "nearest_double c 1 = (m, s)"
    and err: "\<bar>real_of_int m * pow2 s - real_of_int c / real_of_int 1\<bar> \<le> pow2 s / 2"
    and low: "pow2 (s + 52) \<le> real_of_int c / real_of_int 1"
    by blast
  have "real_of_int c < real_of_int (2 ^ 53)"
    using assms(2) by (simp only: of_int_less_iff)
  also have "real_of_int (2 ^ 53) = pow2 53"
    using pow2_int [of 53] by simp
  finally have "real_of_int c < pow2 53" .
  moreover from low have "pow2 (s + 52) \<le> real_of_int c"
    by simp
  ultimately have "pow2 (s + 52) < pow2 53"
    by (rule le_less_trans [rotated])
  then have s: "s \<le> 0" by simp
  define j where "j = c * 2 ^ nat (- s)"
  have j: "real_of_int j * pow2 s = real_of_int c"
    using s by (simp add: j_def pow2_neg)
  have "\<bar>real_of_int m - real_of_int j\<bar> * pow2 s = \<bar>(real_of_int m - real_of_int j) * pow2 s\<bar>"
    by (simp add: abs_mult)
  also have "(real_of_int m - real_of_int j) * pow2 s = real_of_int m * pow2 s - real_of_int c"
    by (simp add: left_diff_distrib j)
  also have "\<bar>real_of_int m * pow2 s - real_of_int c\<bar> \<le> 1 / 2 * pow2 s"
    using err by simp
  finally have "\<bar>real_of_int m - real_of_int j\<bar> \<le> 1 / 2"
    by (rule mult_right_le_imp_le) simp
  then have "\<bar>real_of_int (m - j)\<bar> < 1"
    by simp
  then have "\<bar>m - j\<bar> < 1"
    by (metis of_int_abs of_int_less_1_iff)
  then have "m = j" by simp
  with j have exact: "real_of_int m * pow2 s = real_of_int c" by simp
  have "0 < j" using assms(1) by (simp add: j_def)
  with \<open>m = j\<close> have "0 < m" by simp
  with ms exact show ?thesis
    by (intro that) (simp_all add: to_number_def)
qed

lemma js_div_rel:
  assumes "0 < m1" "0 < m2"
  obtains m s where "js_div (m1, e1) (m2, e2) = (m, s)"
    and "\<bar>real_of_int m * pow2 s - (real_of_int m1 * pow2 e1) / (real_of_int m2 * pow2 e2)\<bar>
           \<le> ((real_of_int m1 * pow2 e1) / (real_of_int m2 * pow2 e2)) / 2 ^ 53"
    and "0 < m"
proof (cases "e2 \<le> e1")
  case True
  define a where "a = m1 * 2 ^ nat (e1 - e2)"
  have a: "0 < a" using assms(1) by (simp add: a_def)
  have ratio: "real_of_int a / real_of_int m2
                 = (real_of_int m1 * pow2 e1) / (real_of_int m2 * pow2 e2)"
  proof -
    have "real_of_int a = real_of_int m1 * pow2 (e1 - e2)"
      using True by (simp add: a_def pow2_nat)
    then show ?thesis by (simp add: pow2_diff)
  qed
  have call: "js_div (m1, e1) (m2, e2) = nearest_double a m2"
    using True by (simp add: js_div_def a_def)
  from nearest_double_rel [OF a assms(2)]
  obtain m s where nd: "nearest_double a m2 = (m, s)"
    "\<bar>real_of_int m * pow2 s - real_of_int a / real_of_int m2\<bar>
       \<le> (real_of_int a / real_of_int m2) / 2 ^ 53"
    "0 < m"
    by blast
  from call nd(1) have "js_div (m1, e1) (m2, e2) = (m, s)"
    by simp
  moreover from nd(2)
  have "\<bar>real_of_int m * pow2 s - (real_of_int m1 * pow2 e1) / (real_of_int m2 * pow2 e2)\<bar>
          \<le> ((real_of_int m1 * pow2 e1) / (real_of_int m2 * pow2 e2)) / 2 ^ 53"
    unfolding ratio .
  ultimately show ?thesis
    using nd(3) by (rule that)
next
  case False
  define b where "b = m2 * 2 ^ nat (e2 - e1)"
  have b: "0 < b" using assms(2) by (simp add: b_def)
  have ratio: "real_of_int m1 / real_of_int b
                 = (real_of_int m1 * pow2 e1) / (real_of_int m2 * pow2 e2)"
  proof -
    have "real_of_int b = real_of_int m2 * pow2 (e2 - e1)"
      using False by (simp add: b_def pow2_nat)
    then show ?thesis by (simp add: pow2_diff)
  qed
  have call: "js_div (m1, e1) (m2, e2) = nearest_double m1 b"
    using False by (simp add: js_div_def b_def)
  from nearest_double_rel [OF assms(1) b]
  obtain m s where nd: "nearest_double m1 b = (m, s)"
    "\<bar>real_of_int m * pow2 s - real_of_int m1 / real_of_int b\<bar>
       \<le> (real_of_int m1 / real_of_int b) / 2 ^ 53"
    "0 < m"
    by blast
  from call nd(1) have "js_div (m1, e1) (m2, e2) = (m, s)"
    by simp
  moreover from nd(2)
  have "\<bar>real_of_int m * pow2 s - (real_of_int m1 * pow2 e1) / (real_of_int m2 * pow2 e2)\<bar>
          \<le> ((real_of_int m1 * pow2 e1) / (real_of_int m2 * pow2 e2)) / 2 ^ 53"
    unfolding ratio .
  ultimately show ?thesis
    using nd(3) by (rule that)
qed

lemma js_mul_rel:
  assumes "0 < m1" "0 < m2"
  obtains m s where "js_mul (m1, e1) (m2, e2) = (m, s)"
    and "\<bar>real_of_int m * pow2 s - (real_of_int m1 * pow2 e1) * (real_of_int m2 * pow2 e2)\<bar>
           \<le> ((real_of_int m1 * pow2 e1) * (real_of_int m2 * pow2 e2)) / 2 ^ 53"
    and "0 < m"
proof (cases "0 \<le> e1 + e2")
  case True
  define a where "a = m1 * m2 * 2 ^ nat (e1 + e2)"
  have a: "0 < a" using assms by (simp add: a_def)
  have one: "(0::int) < 1" by simp
  have ratio: "real_of_int a / real_of_int 1
                 = (real_of_int m1 * pow2 e1) * (real_of_int m2 * pow2 e2)"
  proof -
    have "real_of_int a = real_of_int m1 * real_of_int m2 * pow2 (e1 + e2)"
      using True by (simp add: a_def pow2_nat)
    then show ?thesis by (simp add: pow2_add)
  qed
  have call: "js_mul (m1, e1) (m2, e2) = nearest_double a 1"
    using True by (simp add: js_mul_def a_def)
  from nearest_double_rel [OF a one]
  obtain m s where nd: "nearest_double a 1 = (m, s)"
    "\<bar>real_of_int m * pow2 s - real_of_int a / real_of_int 1\<bar>
       \<le> (real_of_int a / real_of_int 1) / 2 ^ 53"
    "0 < m"
    by blast
  from call nd(1) have "js_mul (m1, e1) (m2, e2) = (m, s)"
    by simp
  moreover from nd(2)
  have "\<bar>real_of_int m * pow2 s - (real_of_int m1 * pow2 e1) * (real_of_int m2 * pow2 e2)\<bar>
          \<le> ((real_of_int m1 * pow2 e1) * (real_of_int m2 * pow2 e2)) / 2 ^ 53"
    unfolding ratio .
  ultimately show ?thesis
    using nd(3) by (rule that)
next
  case False
  define b :: int where "b = 2 ^ nat (- (e1 + e2))"
  have b: "0 < b" by (simp add: b_def)
  have a: "0 < m1 * m2" using assms by simp
  have ratio: "real_of_int (m1 * m2) / real_of_int b
                 = (real_of_int m1 * pow2 e1) * (real_of_int m2 * pow2 e2)"
  proof -
    have "pow2 (e1 + e2) = 1 / real_of_int b"
      using False by (simp add: b_def pow2_neg)
    then have "real_of_int (m1 * m2) / real_of_int b
                 = real_of_int m1 * real_of_int m2 * pow2 (e1 + e2)"
      by simp
    also have "\<dots> = (real_of_int m1 * pow2 e1) * (real_of_int m2 * pow2 e2)"
      by (simp only: pow2_add) simp
    finally show ?thesis .
  qed
  have call: "js_mul (m1, e1) (m2, e2) = nearest_double (m1 * m2) b"
    using False by (simp add: js_mul_def b_def)
  from nearest_double_rel [OF a b]
  obtain m s where nd: "nearest_double (m1 * m2) b = (m, s)"
    "\<bar>real_of_int m * pow2 s - real_of_int (m1 * m2) / real_of_int b\<bar>
       \<le> (real_of_int (m1 * m2) / real_of_int b) / 2 ^ 53"
    "0 < m"
    by blast
  from call nd(1) have "js_mul (m1, e1) (m2, e2) = (m, s)"
    by simp
  moreover from nd(2)
  have "\<bar>real_of_int m * pow2 s - (real_of_int m1 * pow2 e1) * (real_of_int m2 * pow2 e2)\<bar>
          \<le> ((real_of_int m1 * pow2 e1) * (real_of_int m2 * pow2 e2)) / 2 ^ 53"
    unfolding ratio .
  ultimately show ?thesis
    using nd(3) by (rule that)
qed


lemma nearest_double_zero [simp]: "nearest_double 0 b = (0, 0)"
  by (simp add: nearest_double_def)

lemma percentage_zero: "percentage 0 t = 0"
proof (cases "0 < t")
  case True
  obtain m2 e2 where t: "to_number t = (m2, e2)" by (cases "to_number t")
  obtain m3 e3 where h: "to_number 100 = (m3, e3)" by (cases "to_number 100")
  have zero: "to_number 0 = (0, 0)" by (simp add: to_number_def)
  have "js_div (0, 0) (m2, e2) = (0, 0)" by (simp add: js_div_def)
  moreover have "js_mul (0, 0) (m3, e3) = (0, 0)" by (simp add: js_mul_def)
  moreover have "math_round (0, 0) = 0" by (simp add: math_round_def)
  ultimately show ?thesis using True by (simp add: percentage_def zero t h)
next
  case False
  then show ?thesis by (simp add: percentage_def)
qed

lemma percentage_error:
  assumes "0 < c" "c \<le> t" "t < 2 ^ 53"
  obtains \<delta> where
    "percentage c t = \<lfloor>100 * real_of_int c / real_of_int t + 1 / 2 + \<delta>\<rfloor>"
    and "\<bar>\<delta>\<bar> < 1 / 2 ^ 45"
proof -
  from assms have t: "0 < t" and c53: "c < 2 ^ 53" by simp_all
  obtain mc sc where c: "to_number c = (mc, sc)" "real_of_int mc * pow2 sc = real_of_int c"
      "0 < mc"
    using to_number_exact [OF assms(1) c53] by blast
  obtain mt st where tn: "to_number t = (mt, st)" "real_of_int mt * pow2 st = real_of_int t"
      "0 < mt"
    using to_number_exact [OF t assms(3)] by blast
  have "(0::int) < 100" "(100::int) < 2 ^ 53" by simp_all
  then obtain mh sh where h: "to_number 100 = (mh, sh)"
      "real_of_int mh * pow2 sh = real_of_int 100" "0 < mh"
    using to_number_exact [of 100] by blast
  define x where "x = real_of_int c / real_of_int t"
  obtain mq sq where q: "js_div (mc, sc) (mt, st) = (mq, sq)"
      "\<bar>real_of_int mq * pow2 sq - (real_of_int mc * pow2 sc) / (real_of_int mt * pow2 st)\<bar>
         \<le> ((real_of_int mc * pow2 sc) / (real_of_int mt * pow2 st)) / 2 ^ 53"
      "0 < mq"
    using js_div_rel [OF c(3) tn(3)] by blast
  define Q where "Q = real_of_int mq * pow2 sq"
  from q(2) have qerr: "\<bar>Q - x\<bar> \<le> x / 2 ^ 53"
    unfolding c(2) tn(2) Q_def x_def .
  obtain mf sf where f: "js_mul (mq, sq) (mh, sh) = (mf, sf)"
      "\<bar>real_of_int mf * pow2 sf - (real_of_int mq * pow2 sq) * (real_of_int mh * pow2 sh)\<bar>
         \<le> ((real_of_int mq * pow2 sq) * (real_of_int mh * pow2 sh)) / 2 ^ 53"
      "0 < mf"
    using js_mul_rel [OF q(3) h(3)] by blast
  define F where "F = real_of_int mf * pow2 sf"
  from f(2) have ferr: "\<bar>F - Q * 100\<bar> \<le> (Q * 100) / 2 ^ 53"
    unfolding h(2) Q_def F_def by simp
  have x: "0 < x" "x \<le> 1"
    using assms t by (simp_all add: x_def)
  have "x / 2 ^ 53 \<le> 1 / 2 ^ 53"
    using x(2) by (intro divide_right_mono) simp_all
  with qerr have qe: "\<bar>Q - x\<bar> \<le> 1 / 2 ^ 53" by linarith
  note qe
  moreover have "(1::real) / 2 ^ 53 \<le> 1 / 2" by simp
  ultimately have Qle: "Q \<le> 3 / 2" using x(2) by linarith
  have "(Q * 100) / 2 ^ 53 \<le> (3 / 2 * 100) / 2 ^ 53"
    using Qle by (intro divide_right_mono mult_right_mono) simp_all
  with ferr have fe: "\<bar>F - Q * 100\<bar> \<le> 150 / 2 ^ 53" by simp
  define \<delta> where "\<delta> = F - 100 * x"
  have "\<delta> = (F - Q * 100) + 100 * (Q - x)"
    by (simp add: \<delta>_def)
  then have "\<bar>\<delta>\<bar> \<le> \<bar>F - Q * 100\<bar> + \<bar>100 * (Q - x)\<bar>"
    by (simp only: abs_triangle_ineq)
  also have "\<bar>100 * (Q - x)\<bar> = 100 * \<bar>Q - x\<bar>"
    by (simp only: abs_mult abs_numeral)
  finally have "\<bar>\<delta>\<bar> \<le> \<bar>F - Q * 100\<bar> + 100 * \<bar>Q - x\<bar>" .
  also have "\<dots> \<le> 150 / 2 ^ 53 + 100 * (1 / 2 ^ 53)"
    using fe qe by (intro add_mono mult_left_mono) simp_all
  also have "\<dots> < 1 / 2 ^ 45"
    by simp
  finally have small: "\<bar>\<delta>\<bar> < 1 / 2 ^ 45" .
  have "percentage c t = math_round (mf, sf)"
    using t by (simp add: percentage_def c(1) tn(1) h(1) q(1) f(1))
  also have "\<dots> = \<lfloor>F + 1 / 2\<rfloor>"
    by (simp add: math_round_floor F_def)
  also have "F + 1 / 2 = 100 * real_of_int c / real_of_int t + 1 / 2 + \<delta>"
    by (simp add: \<delta>_def x_def)
  finally show ?thesis
    using small by (rule that)
qed

lemma tie_iff:
  fixes c t :: int
  assumes "0 < t"
  shows "(200 * c + t) mod (2 * t) = 0 \<longleftrightarrow> (200 * c) mod (2 * t) = t"
proof -
  define u where "u = (200 * c) mod (2 * t)"
  have u: "0 \<le> u" "u < 2 * t"
    using assms by (simp_all add: u_def)
  have "(200 * c + t) mod (2 * t) = (u + t) mod (2 * t)"
    by (simp add: u_def mod_add_left_eq)
  also have "\<dots> = (if u < t then u + t else u - t)"
  proof (cases "u < t")
    case True
    then show ?thesis using u by simp
  next
    case False
    then have "(u + t) mod (2 * t) = (u - t + 1 * (2 * t)) mod (2 * t)"
      by (simp add: algebra_simps)
    also have "\<dots> = (u - t) mod (2 * t)"
      by (rule mod_mult_self1)
    also have "\<dots> = u - t"
      using False u by simp
    finally show ?thesis using False by simp
  qed
  finally show ?thesis
    using u assms unfolding u_def [symmetric] by auto
qed

lemma half_split:
  fixes c t :: int
  assumes "0 < t"
  shows "100 * real_of_int c / real_of_int t + 1 / 2
           = real_of_int ((200 * c + t) div (2 * t))
             + real_of_int ((200 * c + t) mod (2 * t)) / real_of_int (2 * t)"
proof -
  define n where "n = 200 * c + t"
  have "n = (n div (2 * t)) * (2 * t) + n mod (2 * t)"
    by (rule div_mult_mod_eq [symmetric])
  then have "real_of_int n = real_of_int ((n div (2 * t)) * (2 * t) + n mod (2 * t))"
    by (simp only:)
  then have "real_of_int n / real_of_int (2 * t)
               = real_of_int (n div (2 * t)) + real_of_int (n mod (2 * t)) / real_of_int (2 * t)"
    using assms by (simp add: field_simps)
  moreover have "100 * real_of_int c / real_of_int t + 1 / 2 = real_of_int n / real_of_int (2 * t)"
    using assms by (simp add: n_def field_simps)
  ultimately show ?thesis by (simp add: n_def)
qed

lemma percentage_exact:
  assumes "0 \<le> c" "c \<le> t" "0 < t" "t < 2 ^ 44" "(200 * c) mod (2 * t) \<noteq> t"
  shows "percentage c t = (200 * c + t) div (2 * t)"
proof (cases "c = 0")
  case True
  with assms(3) show ?thesis by (simp add: percentage_zero)
next
  case False
  with assms(1) have c: "0 < c" by simp
  have "(2::int) ^ 44 < 2 ^ 53" by simp
  with assms(4) have t53: "t < 2 ^ 53" by linarith
  obtain \<delta> where p: "percentage c t = \<lfloor>100 * real_of_int c / real_of_int t + 1 / 2 + \<delta>\<rfloor>"
    and small: "\<bar>\<delta>\<bar> < 1 / 2 ^ 45"
    using percentage_error [OF c assms(2) t53] by blast
  define N where "N = (200 * c + t) div (2 * t)"
  define R where "R = (200 * c + t) mod (2 * t)"
  have "R \<noteq> 0"
    using assms(5) tie_iff [OF assms(3), of c] by (simp add: R_def)
  moreover have "0 \<le> R" "R < 2 * t"
    using assms(3) by (simp_all add: R_def)
  ultimately have R: "1 \<le> R" "R \<le> 2 * t - 1" by simp_all
  define w where "w = real_of_int (2 * t)"
  have w: "0 < w" "w < 2 ^ 45"
  proof -
    show "0 < w" using assms(3) by (simp add: w_def)
    have "2 * t < 2 ^ 45" using assms(4) by simp
    then have "real_of_int (2 * t) < real_of_int (2 ^ 45)"
      by (simp only: of_int_less_iff)
    then show "w < 2 ^ 45" by (simp add: w_def)
  qed
  have gap: "1 / 2 ^ 45 < 1 / w"
    using w by (simp add: field_simps)
  have y: "100 * real_of_int c / real_of_int t + 1 / 2 = real_of_int N + real_of_int R / w"
    unfolding N_def R_def w_def by (rule half_split [OF assms(3)])
  have "real_of_int 1 \<le> real_of_int R" "real_of_int R \<le> real_of_int (2 * t - 1)"
    using R by (simp_all only: of_int_le_iff)
  then have "1 / w \<le> real_of_int R / w" "real_of_int R / w \<le> (w - 1) / w"
    using w(1) by (simp_all add: divide_right_mono w_def)
  moreover have "(w - 1) / w = 1 - 1 / w"
    using w(1) by (simp add: field_simps)
  ultimately have frac: "1 / w \<le> real_of_int R / w" "real_of_int R / w \<le> 1 - 1 / w"
    by simp_all
  have "\<lfloor>real_of_int N + real_of_int R / w + \<delta>\<rfloor> = N"
    using frac gap small by (intro floor_unique) linarith+
  then show ?thesis
    by (simp add: p y N_def)
qed

lemma percentage_tie:
  assumes "0 \<le> c" "c \<le> t" "0 < t" "t < 2 ^ 44" "(200 * c) mod (2 * t) = t"
  shows "percentage c t = (200 * c + t) div (2 * t)
       \<or> percentage c t = (200 * c + t) div (2 * t) - 1"
proof -
  have "c \<noteq> 0" using assms(3,5) by auto
  with assms(1) have c: "0 < c" by simp
  have "(2::int) ^ 44 < 2 ^ 53" by simp
  with assms(4) have t53: "t < 2 ^ 53" by linarith
  obtain \<delta> where p: "percentage c t = \<lfloor>100 * real_of_int c / real_of_int t + 1 / 2 + \<delta>\<rfloor>"
    and small: "\<bar>\<delta>\<bar> < 1 / 2 ^ 45"
    using percentage_error [OF c assms(2) t53] by blast
  define N where "N = (200 * c + t) div (2 * t)"
  have "(200 * c + t) mod (2 * t) = 0"
    using assms(5) tie_iff [OF assms(3), of c] by simp
  with half_split [OF assms(3), of c]
  have y: "100 * real_of_int c / real_of_int t + 1 / 2 = real_of_int N"
    by (simp add: N_def)
  have "(1::real) / 2 ^ 45 < 1" by simp
  with small have d: "- 1 < \<delta>" "\<delta> < 1" by linarith+
  show ?thesis
  proof (cases "0 \<le> \<delta>")
    case True
    with d have "\<lfloor>real_of_int N + \<delta>\<rfloor> = N"
      by (intro floor_unique) linarith+
    then show ?thesis by (simp add: p y N_def)
  next
    case False
    with d have "\<lfloor>real_of_int N + \<delta>\<rfloor> = N - 1"
      by (intro floor_unique) simp_all
    then show ?thesis by (simp add: p y N_def)
  qed
qed

section \<open>Facts about the store and the cache\<close>

lemma updateVoteCount_keeps:
  "vote_records (updateVoteCount s optionId) = vote_records s"
  "users (updateVoteCount s optionId) = users s"
  "polls (updateVoteCount s optionId) = polls s"
  by (simp_all add: updateVoteCount_def)

lemma hasVotedToday_Queueing: "link c = Queueing \<Longrightarrow> hasVotedToday t c u p = None"
  by (simp add: hasVotedToday_def client_get_def)


lemma cachePollResults_ready:
  "ready c \<Longrightarrow> 0 < ttl \<Longrightarrow>
     cachePollResults t c p r ttl
       = Some (c\<lparr>entries := (entries c)(PollResultsKey p \<mapsto> (Json r, t + ttl * 1000))\<rparr>)"
  by (simp add: cachePollResults_def client_setEx_def ready_def)

lemma cachePollResults_settles:
  "link c \<noteq> Queueing \<Longrightarrow> \<exists>c'. cachePollResults t c p r ttl = Some c'"
  by (cases "link c") (simp_all add: cachePollResults_def client_setEx_def)

lemma getCachedPollResults_settled:
  "getCachedPollResults t c p = Some r \<Longrightarrow> link c \<noteq> Queueing"
  by (auto simp: getCachedPollResults_def client_get_def)

lemma getCachedPollResults_Queueing:
  "link c = Queueing \<Longrightarrow> getCachedPollResults t c p = None"
  by (simp add: getCachedPollResults_def client_get_def)



lemma getCachedPollResults_written:
  "t' < t + ttl * 1000 \<Longrightarrow>
     getCachedPollResults t'
       (c\<lparr>entries := (entries c)(PollResultsKey p \<mapsto> (Json r, t + ttl * 1000))\<rparr>) p
       = (if link c = Queueing then None
          else if link c = Closed then Some None else Some (Some r))"
  by (cases "link c") (simp_all add: getCachedPollResults_def client_get_def stored_def)

section \<open>The vote handler\<close>

lemma early_return_not_ok: "early_return e (Err n m) st \<noteq> (VoteOk v, st')"
  by (simp add: early_return_def catch_block_def vote_error_response_def)

lemma catch_block_not_ok: "catch_block e err st \<noteq> (VoteOk v, st')"
  by (simp add: catch_block_def vote_error_response_def)

lemma castVote_connect_fails: "fails e Connect \<Longrightarrow> castVote e st rq = (NoResponse, st)"
  by (simp add: castVote_def Let_def)

lemma castVote_VoteOk:
  assumes "castVote e st rq = (VoteOk v, st')"
  shows "(\<exists>c1. markAsVoted (now e) (cache st) (rq_userId rq) (rq_pollId rq) = Some c1
              \<and> st' = \<lparr>db = voted_db e (db st) rq,
                       cache = clear_poll_results c1 (rq_pollId rq)\<rparr>)
       \<and> select_option (db st) (rq_optionId rq) (rq_pollId rq) \<noteq> []
       \<and> \<not> unique_conflict (db st)
             (new_vote_row e (rq_userId rq) (rq_pollId rq) (rq_optionId rq))
       \<and> v = \<lparr>vv_id = fresh_id e, vv_pollId = rq_pollId rq, vv_optionId = rq_optionId rq,
              vv_votedAt = read_timestamp e (wall_clock e (now e))\<rparr>"
  using assms unfolding castVote_def Let_def insert_vote_def
  apply (cases "fails e Connect"; simp split del: if_split)
  apply (cases "fails e Begin"; simp split del: if_split add: catch_block_not_ok)
  apply (cases "fails e SelectPoll"; simp split del: if_split add: catch_block_not_ok)
  apply (cases "select_poll (db st) (rq_pollId rq)";
         simp split del: if_split add: early_return_not_ok)
  subgoal for poll
    apply (cases "p_is_active poll"; simp split del: if_split add: early_return_not_ok)
    apply (cases "poll_has_ended e poll"; simp split del: if_split add: early_return_not_ok)
    apply (cases "fails e SelectOption"; simp split del: if_split add: catch_block_not_ok)
    apply (cases "select_option (db st) (rq_optionId rq) (rq_pollId rq) = []";
           simp split del: if_split add: early_return_not_ok)
    apply (cases "hasVotedToday (now e) (cache st) (rq_userId rq) (rq_pollId rq)";
           simp split del: if_split)
    subgoal for voted
      apply (cases voted; simp split del: if_split add: early_return_not_ok)
      apply (cases "fails e SelectExistingVote";
             simp split del: if_split add: catch_block_not_ok)
      apply (cases "votes_today e (db st) (rq_userId rq) (rq_pollId rq) = []";
             simp split del: if_split add: early_return_not_ok)
      apply (cases "fails e InsertVote"; simp split del: if_split add: catch_block_not_ok)
      apply (cases "unique_conflict (db st)
                      (new_vote_row e (rq_userId rq) (rq_pollId rq) (rq_optionId rq))";
             simp split del: if_split add: catch_block_not_ok)
      apply (cases "foreign_keys_ok (db st)
                      (new_vote_row e (rq_userId rq) (rq_pollId rq) (rq_optionId rq))";
             simp split del: if_split add: catch_block_not_ok)
      apply (cases "fails e UpdateVoteCount";
             simp split del: if_split add: catch_block_not_ok)
      apply (cases "markAsVoted (now e) (cache st) (rq_userId rq) (rq_pollId rq)";
             simp split del: if_split)
      apply (cases "fails e Commit"; simp split del: if_split add: catch_block_not_ok)
      apply (auto simp: voted_db_def updateVoteCount_keeps new_vote_row_def)
      done
    done
  done



section \<open>No answer, and the answer that a poll has ended\<close>

text \<open>
  When the store cannot be reached, or the connection is lost before the poll has been
  looked up, the handler sends nothing. It answers that the poll has ended only for a
  poll whose end lies strictly before the current instant, and so never for a poll
  without an end.
\<close>

lemma castVote_store_unreachable:
  assumes "fails e Connect \<or> (fails e Begin \<or> fails e SelectPoll) \<and> fails e RollbackInCatch"
  shows "castVote e st rq = (NoResponse, st)"
  using assms by (auto simp: castVote_def Let_def catch_block_def)

lemma early_return_ended:
  "fst (early_return e (Err n m) st) = Err 400 ''This poll has ended''
     \<longleftrightarrow> \<not> fails e Rollback \<and> n = 400 \<and> m = ''This poll has ended''"
  by (simp add: early_return_def catch_block_def vote_error_response_def)

lemma catch_block_not_ended:
  "fst (catch_block e err st) \<noteq> Err 400 ''This poll has ended''"
  by (simp add: catch_block_def vote_error_response_def)

lemma castVote_ended_only_after_end:
  assumes "fst (castVote e st rq) = Err 400 ''This poll has ended''"
  shows "\<exists>poll d. select_poll (db st) (rq_pollId rq) = Some poll
           \<and> p_end_date poll = Some d \<and> read_timestamp e d < now e"
  using assms unfolding castVote_def Let_def insert_vote_def
  apply (cases "fails e Connect"; simp split del: if_split)
  apply (cases "fails e Begin"; simp split del: if_split add: catch_block_not_ended)
  apply (cases "fails e SelectPoll"; simp split del: if_split add: catch_block_not_ended)
  apply (cases "select_poll (db st) (rq_pollId rq)";
         simp split del: if_split add: early_return_ended)
  subgoal for poll
    apply (cases "p_is_active poll"; simp split del: if_split add: early_return_ended)
    apply (cases "poll_has_ended e poll")
    subgoal by (auto simp: poll_has_ended_def split: option.splits)
    apply (simp split del: if_split)
    apply (cases "fails e SelectOption"; simp split del: if_split add: catch_block_not_ended)
    apply (cases "select_option (db st) (rq_optionId rq) (rq_pollId rq) = []";
           simp split del: if_split add: early_return_ended)
    apply (cases "hasVotedToday (now e) (cache st) (rq_userId rq) (rq_pollId rq)";
           simp split del: if_split)
    subgoal for voted
      apply (cases voted; simp split del: if_split add: early_return_ended)
      apply (cases "fails e SelectExistingVote";
             simp split del: if_split add: catch_block_not_ended)
      apply (cases "votes_today e (db st) (rq_userId rq) (rq_pollId rq) = []";
             simp split del: if_split add: early_return_ended)
      apply (cases "fails e InsertVote"; simp split del: if_split add: catch_block_not_ended)
      apply (cases "unique_conflict (db st)
                      (new_vote_row e (rq_userId rq) (rq_pollId rq) (rq_optionId rq))";
             simp split del: if_split add: catch_block_not_ended)
      apply (cases "foreign_keys_ok (db st)
                      (new_vote_row e (rq_userId rq) (rq_pollId rq) (rq_optionId rq))";
             simp split del: if_split add: catch_block_not_ended)
      apply (cases "fails e UpdateVoteCount";
             simp split del: if_split add: catch_block_not_ended)
      apply (cases "markAsVoted (now e) (cache st) (rq_userId rq) (rq_pollId rq)";
             simp split del: if_split)
      apply (cases "fails e Commit"; simp split del: if_split add: catch_block_not_ended)
      done
    done
  done

lemma castVote_no_end_never_ended:
  assumes "select_poll (db st) (rq_pollId rq) = Some poll" and "p_end_date poll = None"
  shows "fst (castVote e st rq) \<noteq> Err 400 ''This poll has ended''"
  using assms castVote_ended_only_after_end [of e st rq] by auto

section \<open>One vote ever, a count one behind, and a queue that does not drain\<close>

text \<open>
  Consequences of the schema, of \<open>updateVoteCount\<close>'s own connection and of the cache
  helpers awaiting the client, for every input: a voter with any vote record on a poll
  never gets a second one; after a successful vote the stored counter of the chosen
  option is one less than the number of records that refer to it; and while the client
  queues its commands no vote is answered.
\<close>

lemma castVote_once_ever:
  assumes "list_ex (\<lambda>v. v_user_id v = rq_userId rq \<and> v_poll_id v = rq_pollId rq)
             (vote_records (db st))"
  shows "castVote e st rq \<noteq> (VoteOk v, st')"
proof
  assume "castVote e st rq = (VoteOk v, st')"
  then have "\<not> unique_conflict (db st)
                 (new_vote_row e (rq_userId rq) (rq_pollId rq) (rq_optionId rq))"
    using castVote_VoteOk by blast
  with assms show False
    by (auto simp: unique_conflict_def new_vote_row_def list_ex_iff)
qed

lemma castVote_count_lags:
  assumes "castVote e st rq = (VoteOk v, st')"
    and "opt \<in> set (poll_options (db st'))" and "o_id opt = rq_optionId rq"
  shows "o_vote_count opt = count_votes_for_option (db st') (rq_optionId rq) - 1"
proof -
  from assms(1) have "db st' = voted_db e (db st) rq"
    using castVote_VoteOk by fastforce
  with assms(2,3) show ?thesis
    by (auto simp: voted_db_def updateVoteCount_def count_votes_for_option_def
          new_vote_row_def)
qed

lemma castVote_Queueing:
  assumes "link (cache st) = Queueing"
  shows "castVote e st rq \<noteq> (VoteOk v, st')"
proof
  assume "castVote e st rq = (VoteOk v, st')"
  then obtain c1 where "markAsVoted (now e) (cache st) (rq_userId rq) (rq_pollId rq) = Some c1"
    using castVote_VoteOk by blast
  with assms show False
    by (simp add: markAsVoted_def client_setEx_def)
qed

lemma getResults_Queueing:
  "link (cache st) = Queueing \<Longrightarrow> getResults e st pollId user = (Pending, st)"
  by (simp add: getResults_def getCachedPollResults_Queueing)

section \<open>Facts about reading a poll\<close>

lemma getResults_miss:
  assumes "getCachedPollResults (now e) (cache st) pollId = Some None"
    and "select_poll_details (db st) pollId = Some (poll, creator)"
    and "reads_succeed e"
  shows "fst (getResults e st pollId user)
           = PollOk (poll_result e (db st) pollId poll creator user)"
proof -
  from assms(1) have "link (cache st) \<noteq> Queueing"
    by (rule getCachedPollResults_settled)
  then obtain c' where "cachePollResults (now e) (cache st) pollId
                          (poll_result e (db st) pollId poll creator user) 300 = Some c'"
    using cachePollResults_settles by blast
  with assms show ?thesis
    by (simp add: getResults_def reads_succeed_def Let_def)
qed

lemma getResults_miss_ready:
  assumes "getCachedPollResults (now e) (cache st) pollId = Some None"
    and "select_poll_details (db st) pollId = Some (poll, creator)"
    and "reads_succeed e" and "ready (cache st)"
  shows "getResults e st pollId user =
           (PollOk (poll_result e (db st) pollId poll creator user),
            st\<lparr>cache := (cache st)\<lparr>entries := (entries (cache st))
                 (PollResultsKey pollId \<mapsto>
                    (Json (poll_result e (db st) pollId poll creator user),
                     now e + 300 * 1000))\<rparr>\<rparr>)"
  using assms
  by (simp add: getResults_def reads_succeed_def Let_def cachePollResults_ready)

lemma getResults_hit:
  "getCachedPollResults (now e) (cache st) pollId = Some (Some r) \<Longrightarrow>
     getResults e st pollId user = (PollOk r, st)"
  by (simp add: getResults_def)


lemma rounded_percentage_div:
  assumes "0 < t"
  shows "rounded_percentage c t = (200 * c + t) div (2 * t)"
proof -
  have "real_of_int c / real_of_int t * 100 + 1 / 2
          = real_of_int (200 * c + t) / real_of_int (2 * t)"
    using assms by (simp add: field_simps)
  then have "round (real_of_int c / real_of_int t * 100)
               = \<lfloor>real_of_int (200 * c + t) / real_of_int (2 * t)\<rfloor>"
    by (simp only: round_def)
  also have "\<dots> = (200 * c + t) div (2 * t)"
    by (rule floor_divide_of_int_eq)
  finally show ?thesis
    using assms by (simp add: rounded_percentage_def)
qed

lemma percentage_rounded:
  assumes "0 \<le> c" and "c \<le> t" and "t < 2 ^ 44" and "\<not> exact_half c t"
  shows "percentage c t = rounded_percentage c t"
proof (cases "0 < t")
  case True
  with assms show ?thesis
    by (simp add: percentage_exact rounded_percentage_div exact_half_def)
next
  case False
  with assms(1,2) have "c = 0" "t = 0" by simp_all
  with assms(4) show ?thesis by (simp add: exact_half_def)
qed

lemma percentage_rounded_half:
  assumes "0 \<le> c" and "c \<le> t" and "t < 2 ^ 44" and "exact_half c t"
  shows "percentage c t = rounded_percentage c t
       \<or> percentage c t = rounded_percentage c t - 1"
proof (cases "0 < t")
  case True
  with assms percentage_tie [of c t] show ?thesis
    by (simp add: rounded_percentage_div exact_half_def)
next
  case False
  with assms(1,2) have "t = 0" by simp
  then show ?thesis by (simp add: percentage_def rounded_percentage_def)
qed

section \<open>Facts about tokens\<close>

lemma split_on_no_delimiter: "w \<in> set (split_on d s) \<Longrightarrow> d \<notin> set w"
  by (induction s arbitrary: w) (auto split: if_splits list.splits)

lemma bearer_token_no_space:
  assumes "bearer_token h = Some token"
  shows "CHR '' '' \<notin> set token"
proof -
  from assms have "token \<in> set (split_on (CHR '' '') (the h))"
    by (auto simp: bearer_token_def split: option.splits if_splits list.splits)
  then show ?thesis by (rule split_on_no_delimiter)
qed

lemma source_has_space: "CHR '' '' \<in> set blacklistToken_source"
  by (simp add: blacklistToken_source_def)

lemma blacklistToken_other_key:
  "token \<noteq> blacklistToken_source \<Longrightarrow>
     isTokenBlacklisted t' (blacklistToken t c written lifetime) token
       = isTokenBlacklisted t' c token"
  by (cases "link c")
     (simp_all add: isTokenBlacklisted_def blacklistToken_def client_get_def client_setEx_def
        ready_def stored_def)

section \<open>Claims\<close>

text \<open>
  C1. The specification: at most one vote per voter and poll per calendar day is the only
  restriction, so a voter who voted yesterday can vote again today. Evaluated on the
  code: Bob's vote at instant 0 is recorded; 25 hours later, on the next day, neither the
  cache marker nor the store's query for a vote today finds anything, yet the insert
  meets \<open>UNIQUE(user_id, poll_id)\<close> and the handler answers 429 without recording a
  second vote.
\<close>

theorem castVote_next_day_rejected:
  "fst (castVote (env_at 0 ''v1'') state0 (bob_votes ''oA''))
     = VoteOk \<lparr>vv_id = ''v1'', vv_pollId = ''p1'', vv_optionId = ''oA'', vv_votedAt = 0\<rparr>
   \<and> cache_day next_day = 1
   \<and> votes_today (env_at next_day ''v2'') (db state1) ''u2'' ''p1'' = []
   \<and> hasVotedToday next_day (cache state1) ''u2'' ''p1'' = Some False
   \<and> fst (castVote (env_at next_day ''v2'') state1 (bob_votes ''oB''))
       = Err 429 ''You have already voted for this poll today''
   \<and> map v_id (vote_records (db (snd (castVote (env_at next_day ''v2'') state1
                                       (bob_votes ''oB'')))))
       = [''v1'']"
  by code_simp

text \<open>
  C2. The specification: the insert and the recount of the option's \<open>vote_count\<close> run
  in one transaction, and after the commit the stored count equals the number of vote
  records of the option, the new one included. Evaluated on the code: after Bob's vote
  for A is committed, one record refers to A and the stored count of A is still 0; after
  Cat's vote for A two records refer to A and the stored count is 1. Each time
  \<open>updateVoteCount\<close> counted on a connection that could not see the pending insert.
\<close>

theorem castVote_stored_count_misses_new_vote:
  "fst (castVote (env_at 0 ''v1'') state0 (bob_votes ''oA''))
     = VoteOk \<lparr>vv_id = ''v1'', vv_pollId = ''p1'', vv_optionId = ''oA'', vv_votedAt = 0\<rparr>
   \<and> map v_option_id (vote_records (db state1)) = [''oA'']
   \<and> count_votes_for_option (db state1) ''oA'' = 1
   \<and> map (\<lambda>opt. (o_id opt, o_vote_count opt)) (poll_options (db state1))
       = [(''oA'', 0), (''oB'', 0)]
   \<and> fst (castVote (env_at 1000 ''v2'') state1 (cat_votes ''oA''))
       = VoteOk \<lparr>vv_id = ''v2'', vv_pollId = ''p1'', vv_optionId = ''oA'', vv_votedAt = 1000\<rparr>
   \<and> map v_option_id (vote_records (db state2)) = [''oA'', ''oA'']
   \<and> count_votes_for_option (db state2) ''oA'' = 2
   \<and> map (\<lambda>opt. (o_id opt, o_vote_count opt)) (poll_options (db state2))
       = [(''oA'', 1), (''oB'', 0)]"
  by code_simp

text \<open>
  C3. The specification: \<open>castVote\<close> answers with the failure of the first check that
  fails, a transient failure of the store being answered 500, and every failure path
  rolls the transaction back. Evaluated on the code: when one statement fails and the
  connection still works, the \<open>catch\<close> block rolls back and answers 500. When the store
  cannot be reached, \<open>pool.connect()\<close> fails before the \<open>try\<close> and nothing is
  answered. When the connection is lost during the request, the failing statement is
  caught, but the \<open>catch\<close> block awaits \<open>ROLLBACK\<close> before it answers; that statement
  fails as well, and again nothing is answered, neither the 500 nor, where a check had
  failed, the answer of that check.
\<close>

theorem castVote_lost_connection_no_response:
  "fst (castVote (env_failing 0 ''v1'' [SelectPoll]) state0 (bob_votes ''oA''))
     = Err 500 ''Failed to record vote''
   \<and> fst (castVote (env_failing 0 ''v1'' [Connect]) state0 (bob_votes ''oA'')) = NoResponse
   \<and> fst (castVote (env_failing 0 ''v1'' [SelectPoll, Rollback, RollbackInCatch]) state0
            (bob_votes ''oA'')) = NoResponse
   \<and> fst (castVote (env_failing 0 ''v1'' [InsertVote, Rollback, RollbackInCatch]) state0
            (bob_votes ''oA'')) = NoResponse
   \<and> fst (castVote (env_at 0 ''v1'') state0 (bob_votes ''zz'')) = Err 400 ''Invalid poll option''
   \<and> fst (castVote (env_failing 0 ''v1'' [Rollback, RollbackInCatch]) state0 (bob_votes ''zz''))
       = NoResponse"
  by code_simp

text \<open>
  C4. The specification: every place that derives a day uses one calendar-day
  definition, the uniqueness constraint included. Evaluated on the code: for Bob's
  record of instant 0 and a request on the next day, the cache key and the store's query
  for a vote today both tell the two days apart, and the eligibility check answers that
  Bob can vote, while the uniqueness constraint, which has no day in it, treats the new
  row as a duplicate; and at 16:00 UTC with the database
  session eight hours ahead of UTC the cache's day is day 0 and the store's day is day 1.
\<close>

theorem day_definitions_disagree:
  "cache_day 0 = 0 \<and> cache_day next_day = 1
   \<and> store_day (env_at next_day ''v2'') 0 = 0 \<and> current_date (env_at next_day ''v2'') = 1
   \<and> votes_today (env_at next_day ''v2'') (db state1) ''u2'' ''p1'' = []
   \<and> canVoteToday (env_at next_day ''v2'') state1 ''u2'' ''p1'' = CanVote True None
   \<and> unique_conflict (db state1) (new_vote_row (env_at next_day ''v2'') ''u2'' ''p1'' ''oB'')
   \<and> cache_day (now env_ahead) = 0 \<and> current_date env_ahead = 1"
  by code_simp

text \<open>
  C5. The specification: when the cache cannot be reached its four operations answer
  absent or do nothing, and \<open>castVote\<close> and \<open>getResults\<close> give the outcome they give
  against the store alone. Evaluated on the code: the four helpers await the client
  without testing \<open>isReady\<close>. While the client has lost its server and queues its
  commands, \<open>hasVotedToday\<close>, \<open>getCachedPollResults\<close> and \<open>markAsVoted\<close> do not
  return, and the vote, the read of the poll and the eligibility check stay without an
  answer, with no vote recorded. Only when there is no open client at all do the helpers catch
  an exception, and then the vote is recorded and the poll is read from the store.
\<close>

theorem cache_queueing_blocks_vote_and_read:
  "link queueing_cache = Queueing
   \<and> hasVotedToday 1000 queueing_cache ''u2'' ''p1'' = None
   \<and> getCachedPollResults 1000 queueing_cache ''p1'' = None
   \<and> markAsVoted 1000 queueing_cache ''u2'' ''p1'' = None
   \<and> fst (castVote (env_at 1000 ''v1'') \<lparr>db = store0, cache = queueing_cache\<rparr> (bob_votes ''oA''))
       = Pending
   \<and> vote_records (db (snd (castVote (env_at 1000 ''v1'')
                              \<lparr>db = store0, cache = queueing_cache\<rparr> (bob_votes ''oA'')))) = []
   \<and> fst (getResults (env_at 1000 ''x'') \<lparr>db = store0, cache = queueing_cache\<rparr> ''p1'' None)
       = Pending
   \<and> canVoteToday (env_at 1000 ''v1'') \<lparr>db = store0, cache = queueing_cache\<rparr> ''u2'' ''p1''
       = Pending
   \<and> fst (castVote (env_at 1000 ''v1'') state0 (bob_votes ''oA''))
       = VoteOk \<lparr>vv_id = ''v1'', vv_pollId = ''p1'', vv_optionId = ''oA'', vv_votedAt = 1000\<rparr>
   \<and> shown_total (fst (getResults (env_at 1000 ''x'') state0 ''p1'' None)) = Some 0
   \<and> fst (castVote (env_at 1000 ''v1'') \<lparr>db = store0, cache = closed_cache\<rparr> (bob_votes ''oA''))
       = VoteOk \<lparr>vv_id = ''v1'', vv_pollId = ''p1'', vv_optionId = ''oA'', vv_votedAt = 1000\<rparr>
   \<and> shown_total (fst (getResults (env_at 1000 ''x'') \<lparr>db = store0, cache = closed_cache\<rparr>
                          ''p1'' None)) = Some 0"
  by code_simp




text \<open>
  C7, as the specification has it: the percentage is \<open>round(optionVotes / totalVotes *
  100)\<close>. The handler computes \<open>Math.round((count / total) * 100)\<close> on doubles. For a
  poll with 23 votes for A and 17 for B the share of A is 57.5, which rounds to 58; the
  double nearest to 23/40 lies below it, the product is 57.49999999999999, and the
  handler reports 57.
\<close>

theorem getResults_percentage_below_rounding:
  "shown_total (fst (getResults (env_at 5000 ''x'') \<lparr>db = store_23_17, cache = empty_cache\<rparr>
                       ''p1'' None)) = Some 40
   \<and> map_of (shown_options (fst (getResults (env_at 5000 ''x'')
                                   \<lparr>db = store_23_17, cache = empty_cache\<rparr> ''p1'' None))) ''oA''
       = Some (23, 57)
   \<and> map_of (shown_options (fst (getResults (env_at 5000 ''x'')
                                   \<lparr>db = store_23_17, cache = empty_cache\<rparr> ''p1'' None))) ''oB''
       = Some (17, 43)
   \<and> rounded_percentage 23 40 = 58"
proof -
  let ?r = "fst (getResults (env_at 5000 ''x'') \<lparr>db = store_23_17, cache = empty_cache\<rparr>
                   ''p1'' None)"
  have total: "shown_total ?r = Some 40"
    by code_simp
  have a: "map_of (shown_options ?r) ''oA'' = Some (23, 57)"
    by code_simp
  have b: "map_of (shown_options ?r) ''oB'' = Some (17, 43)"
    by code_simp
  have exact: "rounded_percentage 23 40 = 58"
    by (simp add: rounded_percentage_def round_def)
  from total a b exact show ?thesis
    by (simp only: simp_thms)
qed

text \<open>
  C7, amended. On a cache miss \<open>getResults\<close> reports the options of the poll, each
  once; for each of them, as count the number of vote records that refer to the option
  (the stored counter plays no part); as total the number of vote records of the poll;
  and as percentage 0 when the total is 0. When the count does not exceed the total, the
  percentage is the share \<open>count / total * 100\<close> rounded to the nearest integer, except
  for a share that lies exactly halfway between two integers, which goes up or, where the
  doubles fall short of it, down. Three votes of four are 75 percent and one of four is 25
  percent. (For fewer than \<open>2 ^ 44\<close> vote records.)
\<close>

theorem getResults_miss_counts_live_votes:
  assumes "getCachedPollResults (now e) (cache st) pollId = Some None"
    and "select_poll_details (db st) pollId = Some (poll, creator)"
    and "reads_succeed e"
    and "int (length (vote_records (db st))) < 2 ^ 44"
  shows "\<exists>view. fst (getResults e st pollId user) = PollOk view
            \<and> pv_totalVotes view
                = int (length (filter (\<lambda>v. v_poll_id v = pollId) (vote_records (db st))))
            \<and> mset (map ov_id (pv_options view))
                = mset (map o_id (filter (\<lambda>opt. o_poll_id opt = pollId) (poll_options (db st))))
            \<and> (\<forall>ov \<in> set (pv_options view).
                  ov_voteCount ov
                    = int (length (filter (\<lambda>v. v_option_id v = ov_id ov) (vote_records (db st))))
                  \<and> (pv_totalVotes view = 0 \<longrightarrow> ov_percentage ov = 0)
                  \<and> (ov_voteCount ov \<le> pv_totalVotes view
                       \<and> \<not> exact_half (ov_voteCount ov) (pv_totalVotes view)
                     \<longrightarrow> ov_percentage ov
                          = rounded_percentage (ov_voteCount ov) (pv_totalVotes view))
                  \<and> (ov_voteCount ov \<le> pv_totalVotes view
                       \<and> exact_half (ov_voteCount ov) (pv_totalVotes view)
                     \<longrightarrow> ov_percentage ov
                            = rounded_percentage (ov_voteCount ov) (pv_totalVotes view)
                        \<or> ov_percentage ov
                            = rounded_percentage (ov_voteCount ov) (pv_totalVotes view) - 1))"
proof -
  let ?view = "poll_result e (db st) pollId poll creator user"
  let ?total = "select_total_votes (db st) pollId"
  from assms(1-3) have read: "fst (getResults e st pollId user) = PollOk ?view"
    by (rule getResults_miss)
  have total: "pv_totalVotes ?view
                 = int (length (filter (\<lambda>v. v_poll_id v = pollId) (vote_records (db st))))"
    by (simp add: poll_result_def Let_def select_total_votes_def)
  have "?total \<le> int (length (vote_records (db st)))"
    by (simp add: select_total_votes_def)
  from this assms(4) have small: "?total < 2 ^ 44"
    by (rule le_less_trans)
  have ids: "mset (map ov_id (pv_options ?view))
               = mset (map o_id (filter (\<lambda>opt. o_poll_id opt = pollId) (poll_options (db st))))"
    by (simp add: poll_result_def Let_def select_option_counts_def option_result_def comp_def)
  have each: "ov_voteCount ov
                 = int (length (filter (\<lambda>v. v_option_id v = ov_id ov) (vote_records (db st))))
              \<and> (pv_totalVotes ?view = 0 \<longrightarrow> ov_percentage ov = 0)
              \<and> (ov_voteCount ov \<le> pv_totalVotes ?view
                   \<and> \<not> exact_half (ov_voteCount ov) (pv_totalVotes ?view)
                 \<longrightarrow> ov_percentage ov
                      = rounded_percentage (ov_voteCount ov) (pv_totalVotes ?view))
              \<and> (ov_voteCount ov \<le> pv_totalVotes ?view
                   \<and> exact_half (ov_voteCount ov) (pv_totalVotes ?view)
                 \<longrightarrow> ov_percentage ov
                        = rounded_percentage (ov_voteCount ov) (pv_totalVotes ?view)
                    \<or> ov_percentage ov
                        = rounded_percentage (ov_voteCount ov) (pv_totalVotes ?view) - 1)"
    if "ov \<in> set (pv_options ?view)" for ov
  proof -
    from that obtain opt
      where ov: "ov = option_result ?total (opt, count_votes_for_option (db st) (o_id opt))"
      by (auto simp: poll_result_def Let_def select_option_counts_def)
    define c where "c = count_votes_for_option (db st) (o_id opt)"
    have view: "ov_id ov = o_id opt" "ov_voteCount ov = c" "ov_percentage ov = percentage c ?total"
      "pv_totalVotes ?view = ?total"
      by (simp_all add: ov option_result_def c_def poll_result_def Let_def)
    have c: "0 \<le> c"
      "c = int (length (filter (\<lambda>v. v_option_id v = o_id opt) (vote_records (db st))))"
      by (simp_all add: c_def count_votes_for_option_def)
    have zero: "?total = 0 \<longrightarrow> percentage c ?total = 0"
      by (simp add: percentage_def)
    have exact: "c \<le> ?total \<and> \<not> exact_half c ?total
                   \<longrightarrow> percentage c ?total = rounded_percentage c ?total"
      using c(1) small by (simp add: percentage_rounded)
    have half: "c \<le> ?total \<and> exact_half c ?total
                  \<longrightarrow> percentage c ?total = rounded_percentage c ?total
                      \<or> percentage c ?total = rounded_percentage c ?total - 1"
      using c(1) small percentage_rounded_half [of c ?total] by blast
    from c(2) zero exact half show ?thesis
      unfolding view by blast
  qed
  from read total ids each show ?thesis by blast
qed

theorem getResults_miss_counts_live_votes_witness:
  "getCachedPollResults 5000 empty_cache ''p1'' = Some None
   \<and> select_poll_details store_3_1 ''p1'' = Some (poll1, ann)
   \<and> reads_succeed (env_at 5000 ''x'')
   \<and> map o_vote_count (poll_options store_3_1) = [0, 7]
   \<and> shown_total (fst (getResults (env_at 5000 ''x'') \<lparr>db = store_3_1, cache = empty_cache\<rparr>
                          ''p1'' None)) = Some 4
   \<and> set (shown_options (fst (getResults (env_at 5000 ''x'')
                                 \<lparr>db = store_3_1, cache = empty_cache\<rparr> ''p1'' None)))
       = {(''oA'', 3, 75), (''oB'', 1, 25)}
   \<and> \<not> exact_half 3 4 \<and> rounded_percentage 3 4 = 75
   \<and> \<not> exact_half 1 4 \<and> rounded_percentage 1 4 = 25"
proof -
  let ?st = "\<lparr>db = store_3_1, cache = empty_cache\<rparr>"
  have miss: "getCachedPollResults (now (env_at 5000 ''x'')) (cache ?st) ''p1'' = Some None"
    by code_simp
  have details: "select_poll_details (db ?st) ''p1'' = Some (poll1, ann)"
    by code_simp
  have reads: "reads_succeed (env_at 5000 ''x'')"
    by code_simp
  have small: "int (length (vote_records (db ?st))) < 2 ^ 44"
    by code_simp
  have stored: "map o_vote_count (poll_options store_3_1) = [0, 7]"
    by code_simp
  have records: "int (length (filter (\<lambda>v. v_poll_id v = ''p1'') (vote_records (db ?st)))) = 4"
    by code_simp
  from getResults_miss_counts_live_votes [OF miss details reads small, of None] records
  have total: "shown_total (fst (getResults (env_at 5000 ''x'') ?st ''p1'' None)) = Some 4"
    by (auto simp: shown_total_def)
  have "shown_options (fst (getResults (env_at 5000 ''x'') ?st ''p1'' None))
          = [(''oA'', 3, 75), (''oB'', 1, 25)]"
    by code_simp
  then have options: "set (shown_options (fst (getResults (env_at 5000 ''x'') ?st ''p1'' None)))
                        = {(''oA'', 3, 75), (''oB'', 1, 25)}"
    by simp
  have shares: "\<not> exact_half 3 4" "rounded_percentage 3 4 = 75"
    "\<not> exact_half 1 4" "rounded_percentage 1 4 = 25"
    by (simp_all add: exact_half_def rounded_percentage_div)
  from miss details reads stored total options shares show ?thesis
    by (simp add: env_at_def)
qed

text \<open>
  C8. The specification: a vote on a poll whose end is exactly the current instant fails
  with \<open>PollEnded\<close>. Evaluated on the code: with the end of the poll and the clock both
  at 1000 the vote handler, which tests \<open>end_date < now\<close>, records the vote, and the
  eligibility check answers that Bob can vote, while the listing of polls, which tests
  \<open>end_date <= CURRENT_TIMESTAMP\<close>, counts the same poll at the same instant among the
  polls that have ended and not among those that have not.
\<close>

theorem castVote_end_now_accepted:
  "select_poll store_ending ''p1'' = Some (poll1\<lparr>p_end_date := Some 1000\<rparr>)
   \<and> now (env_at 1000 ''v1'') = 1000
   \<and> fst (castVote (env_at 1000 ''v1'') \<lparr>db = store_ending, cache = empty_cache\<rparr>
             (bob_votes ''oA''))
       = VoteOk \<lparr>vv_id = ''v1'', vv_pollId = ''p1'', vv_optionId = ''oA'', vv_votedAt = 1000\<rparr>
   \<and> canVoteToday (env_at 1000 ''v1'') \<lparr>db = store_ending, cache = empty_cache\<rparr> ''u2'' ''p1''
       = CanVote True None
   \<and> listed_as_ended (env_at 1000 ''v1'') (poll1\<lparr>p_end_date := Some 1000\<rparr>)
   \<and> \<not> listed_as_not_ended (env_at 1000 ''v1'') (poll1\<lparr>p_end_date := Some 1000\<rparr>)"
  by code_simp

text \<open>
  C9. For every token the middleware takes from an Authorization header, calling
  \<open>blacklistToken\<close> (directly or through logout) leaves \<open>isTokenBlacklisted\<close> of
  that token false: the key that is written is built from the source text of the
  function \<open>blacklistToken\<close>, never from the token, and so differs from the key that
  is read.
\<close>

theorem blacklistToken_never_blacklists:
  assumes "bearer_token h = Some token"
    and "\<not> isTokenBlacklisted t' c token"
  shows "BlacklistKey blacklistToken_source \<noteq> BlacklistKey token
     \<and> \<not> isTokenBlacklisted t' (blacklistToken t c token lifetime) token
     \<and> \<not> isTokenBlacklisted t' (logout t c token decoded_exp) token"
proof -
  from assms(1) have "CHR '' '' \<notin> set token"
    by (rule bearer_token_no_space)
  with source_has_space have other: "token \<noteq> blacklistToken_source"
    by auto
  with assms(2) show ?thesis
    by (simp add: blacklistToken_other_key logout_def Let_def)
qed

theorem blacklistToken_never_blacklists_witness:
  "bearer_token (Some ''Bearer abc.def.ghi'') = Some ''abc.def.ghi''
   \<and> \<not> isTokenBlacklisted 1000 empty_cache ''abc.def.ghi''
   \<and> entries (blacklistToken 0 empty_cache ''abc.def.ghi'' 3600)
        (BlacklistKey blacklistToken_source) = Some (Text ''blacklisted'', 3600000)
   \<and> \<not> isTokenBlacklisted 1000 (blacklistToken 0 empty_cache ''abc.def.ghi'' 3600)
          ''abc.def.ghi''
   \<and> \<not> isTokenBlacklisted 1000 (logout 0 empty_cache ''abc.def.ghi'' 3600) ''abc.def.ghi''"
proof -
  have token: "bearer_token (Some ''Bearer abc.def.ghi'') = Some ''abc.def.ghi''"
    by code_simp
  have before: "\<not> isTokenBlacklisted 1000 empty_cache ''abc.def.ghi''"
    by code_simp
  have written: "entries (blacklistToken 0 empty_cache ''abc.def.ghi'' 3600)
                   (BlacklistKey blacklistToken_source) = Some (Text ''blacklisted'', 3600000)"
    by code_simp
  from blacklistToken_never_blacklists [OF token before, of 0 3600 3600] token before written
  show ?thesis by simp
qed

text \<open>
  C10. The snapshot that \<open>getResults\<close> caches holds \<open>hasVotedToday\<close> and
  \<open>canEdit\<close> as computed for the user whose request filled the cache, and a hit
  returns the snapshot as it is: within its 300 seconds any other user's request for the
  poll gets the response the first user got.
\<close>

theorem getResults_hit_serves_populators_view:
  assumes "ready (cache st)"
    and "getCachedPollResults (now e) (cache st) pollId = Some None"
    and "select_poll_details (db st) pollId = Some (poll, creator)"
    and "reads_succeed e"
    and "now e' < now e + 300 * 1000"
  shows "fst (getResults e st pollId userA)
           = PollOk (poll_result e (db st) pollId poll creator userA)
     \<and> fst (getResults e' (snd (getResults e st pollId userA)) pollId userB)
         = fst (getResults e st pollId userA)
     \<and> pv_canEdit (poll_result e (db st) pollId poll creator userA)
         = (userA = Some (u_id creator))
     \<and> pv_hasVotedToday (poll_result e (db st) pollId poll creator userA)
         = (case userA of None \<Rightarrow> False | Some a \<Rightarrow> votes_today e (db st) a pollId \<noteq> [])"
proof -
  let ?view = "poll_result e (db st) pollId poll creator userA"
  let ?c = "(cache st)\<lparr>entries := (entries (cache st))
              (PollResultsKey pollId \<mapsto> (Json ?view, now e + 300 * 1000))\<rparr>"
  from assms(2-4,1) have first: "getResults e st pollId userA = (PollOk ?view, st\<lparr>cache := ?c\<rparr>)"
    by (rule getResults_miss_ready)
  from getCachedPollResults_written [of "now e'" "now e" 300 "cache st" pollId ?view] assms(1,5)
  have "getCachedPollResults (now e') ?c pollId = Some (Some ?view)"
    by (simp add: ready_def)
  then have "fst (getResults e' (snd (getResults e st pollId userA)) pollId userB) = PollOk ?view"
    by (simp add: first getResults_hit)
  with first show ?thesis
    by (simp add: poll_result_def Let_def)
qed

theorem getResults_hit_serves_populators_view_witness:
  "ready empty_cache
   \<and> shown_flags (fst (getResults (env_at 1000 ''x'') (state1\<lparr>cache := empty_cache\<rparr>)
                          ''p1'' (Some ''u1''))) = Some (False, True)
   \<and> shown_flags (fst (getResults (env_at 2000 ''x'') (state1\<lparr>cache := empty_cache\<rparr>)
                          ''p1'' (Some ''u2''))) = Some (True, False)
   \<and> shown_flags (fst (getResults (env_at 2000 ''x'')
                          (snd (getResults (env_at 1000 ''x'') (state1\<lparr>cache := empty_cache\<rparr>)
                                  ''p1'' (Some ''u1'')))
                          ''p1'' (Some ''u2''))) = Some (False, True)"
proof -
  let ?st = "state1\<lparr>cache := empty_cache\<rparr>"
  have up: "ready (cache ?st)"
    by code_simp
  have miss: "getCachedPollResults (now (env_at 1000 ''x'')) (cache ?st) ''p1'' = Some None"
    by code_simp
  have details: "select_poll_details (db ?st) ''p1'' = Some (poll1, ann)"
    by code_simp
  have reads: "reads_succeed (env_at 1000 ''x'')"
    by code_simp
  have within: "now (env_at 2000 ''x'') < now (env_at 1000 ''x'') + 300 * 1000"
    by code_simp
  have ann_sees: "shown_flags (fst (getResults (env_at 1000 ''x'') ?st ''p1'' (Some ''u1'')))
                    = Some (False, True)"
    by code_simp
  have bob_alone: "shown_flags (fst (getResults (env_at 2000 ''x'') ?st ''p1'' (Some ''u2'')))
                     = Some (True, False)"
    by code_simp
  from getResults_hit_serves_populators_view
         [OF up miss details reads within, of "Some ''u1''" "Some ''u2''"] ann_sees
  have "shown_flags (fst (getResults (env_at 2000 ''x'')
                            (snd (getResults (env_at 1000 ''x'') ?st ''p1'' (Some ''u1'')))
                            ''p1'' (Some ''u2''))) = Some (False, True)"
    by simp
  with ann_sees bob_alone show ?thesis
    by (simp add: empty_cache_def ready_def)
qed

end
